theory Spec2Isabelle
  imports Main
begin

section \<open>The NATS adapter of cfmessagebus (nats.go)\<close>

text \<open>
  The adapter wraps a yagnats client. The client, the UUID generator and the clock are
  libraries outside the repository: what they return is taken from an environment
  \<open>Env\<close>, and every method the adapter calls on a client is appended to that client's
  \<open>calls\<close>, so that a theorem can say which broker calls an operation made and in which
  order. The theorems hold for every environment.

  Conventions of the embedding:
  \<^item> a Go \<open>string\<close> and a \<open>[]byte\<close> are both \<open>char list\<close> (a HOL \<open>char\<close> is a byte), so
    the conversion \<open>[]byte(msg.Payload)\<close> is the identity;
  \<^item> a Go function value that may be \<open>nil\<close> is an \<open>option\<close>;
  \<^item> the handlers of the application have side effects: they are functions on an
    application state \<open>'u\<close>. They do not call back into the adapter;
  \<^item> an operation returns \<open>None\<close> when the Go code panics (a nil pointer is
    dereferenced, a nil function is called) and \<open>Some\<close> of its results otherwise;
  \<^item> a Go \<open>error\<close> result is an \<open>error option\<close>, \<open>None\<close> being \<open>nil\<close>;
  \<^item> the \<open>int\<close> and \<open>int64\<close> values of the source (the port, the subscription id, the
    clock) are stored and printed but never computed with, so they are \<open>int\<close>;
  \<^item> the adapter has no lock and starts no goroutine. Here one thing happens at a time:
    a call of an operation by the application, or a run of a closure by the client, is
    one step, and the order of the steps is arbitrary.
\<close>

subsection \<open>Data\<close>

type_synonym bytes = "char list"

datatype error =
    errors_New string     \<comment> \<open>\<open>errors.New(msg)\<close>, the errors the adapter makes itself\<close>
  | ClientError string    \<comment> \<open>an error returned by the yagnats client\<close>
  | UUIDError string      \<comment> \<open>an error returned by \<open>uuid.NewV4\<close>\<close>

datatype Logger = LoggerRef nat

datatype UUID = UUID string   \<comment> \<open>a UUID, named by the text \<open>%s\<close> prints for it\<close>

record Message =
  Subject :: string
  ReplyTo :: string
  Payload :: string

record ConnectionInfo =
  Addr :: string
  Username :: string
  Password :: string

record 'u Subscription =
  subject :: string
  callback :: "(bytes \<Rightarrow> 'u \<Rightarrow> 'u) option"
  reply :: "(bytes \<Rightarrow> 'u \<Rightarrow> bytes \<times> 'u) option"
  id' :: int

text \<open>
  The closure that \<open>subscribeInNats\<close> hands to the client captures the pointer \<open>sub\<close>
  and reads \<open>sub.reply\<close> and \<open>sub.callback\<close> when a message arrives. Both fields are
  written once, when the subscription is made, so the closure is represented by their
  values. The closure that \<open>connect\<close> stores in \<open>client.ConnectedCallback\<close> captures the
  adapter only.
\<close>

datatype 'u listener =
  Listener "(bytes \<Rightarrow> 'u \<Rightarrow> 'u) option" "(bytes \<Rightarrow> 'u \<Rightarrow> bytes \<times> 'u) option"

datatype hook = ForwardToAdapter

datatype 'u call =
    Call_Connect ConnectionInfo
  | Call_Subscribe string "'u listener"
  | Call_UnsubscribeAll string
  | Call_Publish string bytes
  | Call_PublishWithReplyTo string string bytes
  | Call_Ping

text \<open>
  A client, as the adapter sees it: the two fields the adapter assigns, and the calls
  made on it so far. \<open>Logger = None\<close> stands for the logger that \<open>nats.NewClient\<close> sets
  by itself.
\<close>

record 'u Client =
  ConnectedCallback :: "hook option"
  Logger :: "Logger option"
  calls :: "'u call list"

record 'u NatsAdapter =
  client :: "'u Client option"
  host :: string
  user :: string
  port :: int
  password :: string
  subscriptions :: "'u Subscription list"
  rand :: "int option"     \<comment> \<open>the seed of the generator, \<open>None\<close> for \<open>nil\<close>\<close>
  connectedCallback :: "('u \<Rightarrow> 'u) option"
  logger :: "Logger option"

record 'u Env =
  client_Connect :: "'u Client \<Rightarrow> ConnectionInfo \<Rightarrow> error option"
  client_Subscribe :: "'u Client \<Rightarrow> string \<Rightarrow> 'u listener \<Rightarrow> int \<times> error option"
  client_Publish :: "'u Client \<Rightarrow> string \<Rightarrow> bytes \<Rightarrow> error option"
  client_PublishWithReplyTo :: "'u Client \<Rightarrow> string \<Rightarrow> string \<Rightarrow> bytes \<Rightarrow> error option"
  client_Ping :: "'u Client \<Rightarrow> bool"
  uuid_NewV4 :: "error + UUID"
  time_UnixNano :: int

subsection \<open>The libraries, as far as the adapter sees them\<close>

text \<open>\<open>fmt.Sprintf("%d", n)\<close>.\<close>

function show_nat :: "nat \<Rightarrow> string" where
  "show_nat n =
     (if n < 10 then [''0123456789'' ! n]
      else show_nat (n div 10) @ [''0123456789'' ! (n mod 10)])"
  by pat_completeness auto
termination
  by (relation "measure (\<lambda>n. n)") auto

declare show_nat.simps [simp del]

definition show_int :: "int \<Rightarrow> string" where
  "show_int i = (if i < 0 then ''-'' @ show_nat (nat (- i)) else show_nat (nat i))"

text \<open>\<open>fmt.Sprintf("%s", uuid)\<close>.\<close>

fun uuid_String :: "UUID \<Rightarrow> string" where
  "uuid_String (UUID s) = s"

definition NewClient :: "'u Client" where
  "NewClient = \<lparr>ConnectedCallback = None, Logger = None, calls = []\<rparr>"

definition record_call :: "'u call \<Rightarrow> 'u Client \<Rightarrow> 'u Client" where
  "record_call k c = c\<lparr>calls := calls c @ [k]\<rparr>"

definition Client_Connect ::
  "'u Env \<Rightarrow> ConnectionInfo \<Rightarrow> 'u Client \<Rightarrow> error option \<times> 'u Client" where
  "Client_Connect env info c = (client_Connect env c info, record_call (Call_Connect info) c)"

definition Client_Subscribe ::
  "'u Env \<Rightarrow> string \<Rightarrow> 'u listener \<Rightarrow> 'u Client \<Rightarrow> (int \<times> error option) \<times> 'u Client" where
  "Client_Subscribe env subj l c =
     (client_Subscribe env c subj l, record_call (Call_Subscribe subj l) c)"

definition Client_UnsubscribeAll :: "string \<Rightarrow> 'u Client \<Rightarrow> unit \<times> 'u Client" where
  "Client_UnsubscribeAll subj c = ((), record_call (Call_UnsubscribeAll subj) c)"

definition Client_Publish ::
  "'u Env \<Rightarrow> string \<Rightarrow> bytes \<Rightarrow> 'u Client \<Rightarrow> error option \<times> 'u Client" where
  "Client_Publish env subj message c =
     (client_Publish env c subj message, record_call (Call_Publish subj message) c)"

definition Client_PublishWithReplyTo ::
  "'u Env \<Rightarrow> string \<Rightarrow> string \<Rightarrow> bytes \<Rightarrow> 'u Client \<Rightarrow> error option \<times> 'u Client" where
  "Client_PublishWithReplyTo env subj rep message c =
     (client_PublishWithReplyTo env c subj rep message,
      record_call (Call_PublishWithReplyTo subj rep message) c)"

definition Client_Ping :: "'u Env \<Rightarrow> 'u Client \<Rightarrow> bool \<times> 'u Client" where
  "Client_Ping env c = (client_Ping env c, record_call Call_Ping c)"

text \<open>
  \<open>adapter.client.m(...)\<close>: the method \<open>m\<close> runs on the client the adapter points to;
  a nil pointer panics.
\<close>

definition on_client ::
  "('u Client \<Rightarrow> 'r \<times> 'u Client) \<Rightarrow> 'u NatsAdapter \<Rightarrow> ('r \<times> 'u NatsAdapter) option" where
  "on_client m adapter =
     (case client adapter of
        None \<Rightarrow> None
      | Some c \<Rightarrow> (case m c of (r, c') \<Rightarrow> Some (r, adapter\<lparr>client := Some c'\<rparr>)))"

subsection \<open>The adapter\<close>

definition NewNatsAdapter :: "'u NatsAdapter" where
  "NewNatsAdapter =
     \<lparr>client = None, host = [], user = [], port = 0, password = [], subscriptions = [],
      rand = None, connectedCallback = None, logger = None\<rparr>"

definition Configure ::
  "string \<Rightarrow> int \<Rightarrow> string \<Rightarrow> string \<Rightarrow> 'u NatsAdapter \<Rightarrow> 'u NatsAdapter" where
  "Configure h p u pw adapter = adapter\<lparr>host := h, port := p, user := u, password := pw\<rparr>"

definition OnConnect :: "('u \<Rightarrow> 'u) option \<Rightarrow> 'u NatsAdapter \<Rightarrow> 'u NatsAdapter" where
  "OnConnect cb adapter = adapter\<lparr>connectedCallback := cb\<rparr>"

definition SetLogger :: "Logger option \<Rightarrow> 'u NatsAdapter \<Rightarrow> 'u NatsAdapter" where
  "SetLogger l adapter = adapter\<lparr>logger := l\<rparr>"

text \<open>The body of the closure stored in \<open>client.ConnectedCallback\<close> (lines 60 to 64).\<close>

fun run_hook :: "hook \<Rightarrow> 'u NatsAdapter \<Rightarrow> 'u \<Rightarrow> 'u" where
  "run_hook ForwardToAdapter adapter app =
     (case connectedCallback adapter of None \<Rightarrow> app | Some cb \<Rightarrow> cb app)"

definition listener_of :: "'u Subscription \<Rightarrow> 'u listener" where
  "listener_of sub = Listener (callback sub) (reply sub)"

text \<open>
  \<open>subscribeInNats(adapter, sub)\<close>. In the source \<open>sub\<close> is a pointer and \<open>sub.id\<close> is
  assigned through it; here the function returns the subscription as it is after the
  call, and each caller stores it where the pointer lives in \<open>adapter.subscriptions\<close>.
  Every subscription is allocated by \<open>Subscribe\<close> or \<open>RespondToChannel\<close> and appended
  once, so no two positions of the sequence hold the same pointer.
\<close>

definition subscribeInNats ::
  "'u Env \<Rightarrow> 'u NatsAdapter \<Rightarrow> 'u Subscription \<Rightarrow> ('u NatsAdapter \<times> 'u Subscription) option" where
  "subscribeInNats env adapter sub =
     (case on_client (Client_Subscribe env (subject sub) (listener_of sub)) adapter of
        None \<Rightarrow> None
      | Some ((sid, _), adapter') \<Rightarrow> Some (adapter', sub\<lparr>id' := sid\<rparr>))"

text \<open>The loop of \<open>connect\<close> (lines 83 to 85), over the subscriptions still to replay.\<close>

fun replay ::
  "'u Env \<Rightarrow> 'u NatsAdapter \<Rightarrow> 'u Subscription list
     \<Rightarrow> ('u NatsAdapter \<times> 'u Subscription list) option" where
  "replay env adapter [] = Some (adapter, [])"
| "replay env adapter (sub # subs) =
     (case subscribeInNats env adapter sub of
        None \<Rightarrow> None
      | Some (adapter1, sub') \<Rightarrow>
          (case replay env adapter1 subs of
             None \<Rightarrow> None
           | Some (adapter2, subs') \<Rightarrow> Some (adapter2, sub' # subs')))"

definition connection_info :: "'u NatsAdapter \<Rightarrow> ConnectionInfo" where
  "connection_info adapter =
     \<lparr>Addr = host adapter @ '':'' @ show_int (port adapter),
      Username = user adapter, Password = password adapter\<rparr>"

definition wired_client :: "'u NatsAdapter \<Rightarrow> 'u Client" where
  "wired_client adapter =
     (let client0 = NewClient;
          client1 = client0\<lparr>ConnectedCallback := Some ForwardToAdapter\<rparr>
      in case logger adapter of
           None \<Rightarrow> client1
         | Some l \<Rightarrow> client1\<lparr>Logger := Some l\<rparr>)"

definition connect :: "'u Env \<Rightarrow> 'u NatsAdapter \<Rightarrow> (error option \<times> 'u NatsAdapter) option" where
  "connect env adapter =
     (case Client_Connect env (connection_info adapter) (wired_client adapter) of
        (Some err, _) \<Rightarrow> Some (Some err, adapter)
      | (None, client') \<Rightarrow>
          (let adapter1 = adapter\<lparr>client := Some client', rand := Some (time_UnixNano env)\<rparr>
           in case replay env adapter1 (subscriptions adapter1) of
                None \<Rightarrow> None
              | Some (adapter2, subs') \<Rightarrow> Some (None, adapter2\<lparr>subscriptions := subs'\<rparr>)))"

definition Connect :: "'u Env \<Rightarrow> 'u NatsAdapter \<Rightarrow> (error option \<times> 'u NatsAdapter) option" where
  "Connect env adapter = connect env adapter"

definition createInbox :: "'u Env \<Rightarrow> error + string" where
  "createInbox env =
     (case uuid_NewV4 env of
        Inl err \<Rightarrow> Inl err
      | Inr uuid \<Rightarrow> Inr (''_INBOX.'' @ uuid_String uuid))"

text \<open>
  \<open>Subscribe\<close> and \<open>RespondToChannel\<close> have the same body after the allocation of the
  subscription (lines 101 to 109 and 142 to 150): it is \<open>store_new\<close>. It appends the
  new subscription, then registers it when there is a client; the subscription that
  \<open>subscribeInNats\<close> returns is stored at the position of the appended pointer.
\<close>

definition store_new ::
  "'u Env \<Rightarrow> 'u Subscription \<Rightarrow> 'u NatsAdapter \<Rightarrow> (error option \<times> 'u NatsAdapter) option" where
  "store_new env sub adapter =
     (let adapter1 = adapter\<lparr>subscriptions := subscriptions adapter @ [sub]\<rparr>
      in if client adapter1 \<noteq> None then
           (case subscribeInNats env adapter1 sub of
              None \<Rightarrow> None
            | Some (adapter2, sub') \<Rightarrow>
                Some (None,
                  adapter2\<lparr>subscriptions :=
                    (subscriptions adapter2)[length (subscriptions adapter) := sub']\<rparr>))
         else Some (Some (errors_New ''No connection to Nats. Caching subscription...''),
                adapter1))"

definition Subscribe ::
  "'u Env \<Rightarrow> string \<Rightarrow> (bytes \<Rightarrow> 'u \<Rightarrow> 'u) option \<Rightarrow> 'u NatsAdapter
     \<Rightarrow> (error option \<times> 'u NatsAdapter) option" where
  "Subscribe env subj cb adapter =
     store_new env \<lparr>subject = subj, callback = cb, reply = None, id' = 0\<rparr> adapter"

definition RespondToChannel ::
  "'u Env \<Rightarrow> string \<Rightarrow> (bytes \<Rightarrow> 'u \<Rightarrow> bytes \<times> 'u) option \<Rightarrow> 'u NatsAdapter
     \<Rightarrow> (error option \<times> 'u NatsAdapter) option" where
  "RespondToChannel env subj replyCallback adapter =
     store_new env \<lparr>subject = subj, callback = None, reply = replyCallback, id' = 0\<rparr> adapter"

definition withConnectionCheck ::
  "'c option \<Rightarrow> (unit \<Rightarrow> (error option \<times> 's) option) \<Rightarrow> 's \<Rightarrow> (error option \<times> 's) option" where
  "withConnectionCheck connection cb s =
     (case connection of
        None \<Rightarrow> Some (Some (errors_New ''No connection to Nats''), s)
      | Some _ \<Rightarrow> cb ())"

text \<open>The loop of \<open>UnsubscribeAll\<close> (lines 114 to 116).\<close>

fun unsubscribe_each ::
  "'u NatsAdapter \<Rightarrow> 'u Subscription list \<Rightarrow> 'u NatsAdapter option" where
  "unsubscribe_each adapter [] = Some adapter"
| "unsubscribe_each adapter (sub # subs) =
     (case on_client (Client_UnsubscribeAll (subject sub)) adapter of
        None \<Rightarrow> None
      | Some (_, adapter') \<Rightarrow> unsubscribe_each adapter' subs)"

definition UnsubscribeAll :: "'u NatsAdapter \<Rightarrow> (error option \<times> 'u NatsAdapter) option" where
  "UnsubscribeAll adapter =
     withConnectionCheck (client adapter)
       (\<lambda>_. case unsubscribe_each adapter (subscriptions adapter) of
               None \<Rightarrow> None
             | Some adapter' \<Rightarrow> Some (None, adapter'\<lparr>subscriptions := []\<rparr>))
       adapter"

definition Publish ::
  "'u Env \<Rightarrow> string \<Rightarrow> bytes \<Rightarrow> 'u NatsAdapter \<Rightarrow> (error option \<times> 'u NatsAdapter) option" where
  "Publish env subj message adapter =
     withConnectionCheck (client adapter)
       (\<lambda>_. on_client (Client_Publish env subj message) adapter)
       adapter"

definition Request ::
  "'u Env \<Rightarrow> string \<Rightarrow> bytes \<Rightarrow> (bytes \<Rightarrow> 'u \<Rightarrow> 'u) option \<Rightarrow> 'u NatsAdapter
     \<Rightarrow> (error option \<times> 'u NatsAdapter) option" where
  "Request env subj message cb adapter =
     withConnectionCheck (client adapter)
       (\<lambda>_. case createInbox env of
               Inl err \<Rightarrow> Some (Some err, adapter)
             | Inr inbox \<Rightarrow>
                 (case Subscribe env inbox cb adapter of
                    None \<Rightarrow> None
                  | Some (_, adapter1) \<Rightarrow>
                      on_client (Client_PublishWithReplyTo env subj inbox message) adapter1))
       adapter"

definition Ping :: "'u Env \<Rightarrow> 'u NatsAdapter \<Rightarrow> (bool \<times> 'u NatsAdapter) option" where
  "Ping env adapter =
     (if client adapter = None then Some (False, adapter)
      else on_client (Client_Ping env) adapter)"

text \<open>
  \<open>replyToMessage\<close>, and the body of the closure of \<open>subscribeInNats\<close> (lines 170 to
  176), which the client runs when a message arrives. Both run on the adapter as it is
  at that moment, and on the state of the application.
\<close>

definition replyToMessage ::
  "'u Env \<Rightarrow> Message \<Rightarrow> (bytes \<Rightarrow> 'u \<Rightarrow> bytes \<times> 'u) option \<Rightarrow> 'u NatsAdapter \<times> 'u
     \<Rightarrow> ('u NatsAdapter \<times> 'u) option" where
  "replyToMessage env msg cb s =
     (case s of (a, app) \<Rightarrow>
        if ReplyTo msg = [] then Some (a, app)
        else (case cb of
                None \<Rightarrow> None
              | Some f \<Rightarrow>
                  (case f (Payload msg) app of (out, app') \<Rightarrow>
                     (case on_client (Client_Publish env (ReplyTo msg) out) a of
                        None \<Rightarrow> None
                      | Some (_, a') \<Rightarrow> Some (a', app')))))"

fun run_listener ::
  "'u Env \<Rightarrow> 'u listener \<Rightarrow> Message \<Rightarrow> 'u NatsAdapter \<times> 'u \<Rightarrow> ('u NatsAdapter \<times> 'u) option" where
  "run_listener env (Listener cb rep) msg (adapter, app) =
     (if rep \<noteq> None then replyToMessage env msg rep (adapter, app)
      else (case cb of
              None \<Rightarrow> None
            | Some f \<Rightarrow> Some (adapter, f (Payload msg) app)))"


subsection \<open>Runs of the adapter\<close>

text \<open>
  A run is a sequence of calls of the public operations by the application, mixed with
  the two things the client does on its own: handing a message to a listener and
  running its connected callback. Every step has its own environment. The client may
  run any listener here, not only the ones registered with it, so the runs of the
  model include all the runs of the program.
\<close>

datatype 'u op =
    Op_Configure string int string string
  | Op_Connect
  | Op_OnConnect "('u \<Rightarrow> 'u) option"
  | Op_SetLogger "Logger option"
  | Op_Subscribe string "(bytes \<Rightarrow> 'u \<Rightarrow> 'u) option"
  | Op_UnsubscribeAll
  | Op_Publish string bytes
  | Op_Request string bytes "(bytes \<Rightarrow> 'u \<Rightarrow> 'u) option"
  | Op_RespondToChannel string "(bytes \<Rightarrow> 'u \<Rightarrow> bytes \<times> 'u) option"
  | Op_Ping
  | Ev_Message "'u listener" Message
  | Ev_Connected

fun step :: "'u Env \<Rightarrow> 'u op \<Rightarrow> 'u NatsAdapter \<times> 'u \<Rightarrow> ('u NatsAdapter \<times> 'u) option" where
  "step env (Op_Configure h p u pw) (a, app) = Some (Configure h p u pw a, app)"
| "step env Op_Connect (a, app) = map_option (\<lambda>(_, a'). (a', app)) (Connect env a)"
| "step env (Op_OnConnect cb) (a, app) = Some (OnConnect cb a, app)"
| "step env (Op_SetLogger l) (a, app) = Some (SetLogger l a, app)"
| "step env (Op_Subscribe subj cb) (a, app) =
     map_option (\<lambda>(_, a'). (a', app)) (Subscribe env subj cb a)"
| "step env Op_UnsubscribeAll (a, app) = map_option (\<lambda>(_, a'). (a', app)) (UnsubscribeAll a)"
| "step env (Op_Publish subj message) (a, app) =
     map_option (\<lambda>(_, a'). (a', app)) (Publish env subj message a)"
| "step env (Op_Request subj message cb) (a, app) =
     map_option (\<lambda>(_, a'). (a', app)) (Request env subj message cb a)"
| "step env (Op_RespondToChannel subj rep) (a, app) =
     map_option (\<lambda>(_, a'). (a', app)) (RespondToChannel env subj rep a)"
| "step env Op_Ping (a, app) = map_option (\<lambda>(_, a'). (a', app)) (Ping env a)"
| "step env (Ev_Message l msg) (a, app) = run_listener env l msg (a, app)"
| "step env Ev_Connected (a, app) = Some (a, run_hook ForwardToAdapter a app)"

fun run :: "('u Env \<times> 'u op) list \<Rightarrow> 'u NatsAdapter \<times> 'u \<Rightarrow> ('u NatsAdapter \<times> 'u) option" where
  "run [] s = Some s"
| "run ((env, x) # xs) s = (case step env x s of None \<Rightarrow> None | Some s' \<Rightarrow> run xs s')"

text \<open>Whether an operation was given the handler it asks for, rather than \<open>nil\<close>.\<close>

fun handler_given :: "'u op \<Rightarrow> bool" where
  "handler_given (Op_Subscribe _ None) = False"
| "handler_given (Op_Request _ _ None) = False"
| "handler_given (Op_RespondToChannel _ None) = False"
| "handler_given _ = True"

definition one_mode :: "'u Subscription \<Rightarrow> bool" where
  "one_mode sub = ((callback sub = None) \<noteq> (reply sub = None))"

definition not_both :: "'u Subscription \<Rightarrow> bool" where
  "not_both sub = (callback sub = None \<or> reply sub = None)"

text \<open>The call by which a subscription is registered with the client.\<close>

definition registration :: "'u Subscription \<Rightarrow> 'u call" where
  "registration sub = Call_Subscribe (subject sub) (listener_of sub)"

subsection \<open>Sample environments, handlers and states\<close>

text \<open>
  The application state of the samples is the list of the payloads its handlers have
  received.
\<close>

definition remember :: "bytes \<Rightarrow> bytes list \<Rightarrow> bytes list" where
  "remember p seen = seen @ [p]"

definition answer :: "bytes \<Rightarrow> bytes list \<Rightarrow> bytes \<times> bytes list" where
  "answer p seen = (''re:'' @ p, seen @ [p])"

definition broker_up :: "bytes list Env" where
  "broker_up =
     \<lparr>client_Connect = (\<lambda>_ _. None),
      client_Subscribe = (\<lambda>c _ _. (int (length (calls c)), None)),
      client_Publish = (\<lambda>_ _ _. None),
      client_PublishWithReplyTo = (\<lambda>_ _ _ _. None),
      client_Ping = (\<lambda>_. True),
      uuid_NewV4 = Inr (UUID ''6ba7b810-9dad-41d1-80b4-00c04fd430c8''),
      time_UnixNano = 1700000000000000000\<rparr>"

definition broker_down :: "bytes list Env" where
  "broker_down =
     \<lparr>client_Connect = (\<lambda>_ _. Some (ClientError ''connection refused'')),
      client_Subscribe = (\<lambda>_ _ _. (- 1, Some (ClientError ''not connected''))),
      client_Publish = (\<lambda>_ _ _. Some (ClientError ''not connected'')),
      client_PublishWithReplyTo = (\<lambda>_ _ _ _. Some (ClientError ''not connected'')),
      client_Ping = (\<lambda>_. False),
      uuid_NewV4 = Inl (UUIDError ''no entropy''),
      time_UnixNano = 1700000000000000001\<rparr>"

text \<open>The broker accepts the connection and then refuses every subscription.\<close>

definition broker_refusing :: "bytes list Env" where
  "broker_refusing =
     \<lparr>client_Connect = (\<lambda>_ _. None),
      client_Subscribe = (\<lambda>_ _ _. (0, Some (ClientError ''subscription refused''))),
      client_Publish = (\<lambda>_ _ _. None),
      client_PublishWithReplyTo = (\<lambda>_ _ _ _. Some (ClientError ''publish failed'')),
      client_Ping = (\<lambda>_. True),
      uuid_NewV4 = Inr (UUID ''16fd2706-8baf-433b-82eb-8c7fada847da''),
      time_UnixNano = 1700000000000000002\<rparr>"

definition fresh :: "bytes list NatsAdapter" where
  "fresh = Configure ''localhost'' 4222 ''nats'' ''secret'' NewNatsAdapter"

definition local_info :: ConnectionInfo where
  "local_info = \<lparr>Addr = ''localhost:4222'', Username = ''nats'', Password = ''secret''\<rparr>"

definition online :: "bytes list NatsAdapter" where
  "online =
     \<lparr>client = Some \<lparr>ConnectedCallback = Some ForwardToAdapter, Logger = None,
                     calls = [Call_Connect local_info]\<rparr>,
      host = ''localhost'', user = ''nats'', port = 4222, password = ''secret'',
      subscriptions = [], rand = Some 1700000000000000000,
      connectedCallback = None, logger = None\<rparr>"

text \<open>Two subscriptions made before any connection.\<close>

definition queued :: "bytes list NatsAdapter" where
  "queued = fresh\<lparr>subscriptions :=
     [\<lparr>subject = ''news'', callback = Some remember, reply = None, id' = 0\<rparr>,
      \<lparr>subject = ''echo'', callback = None, reply = Some answer, id' = 0\<rparr>]\<rparr>"

text \<open>The connected adapter after \<open>RespondToChannel("echo", answer)\<close>.\<close>

definition serving :: "bytes list NatsAdapter" where
  "serving = online
     \<lparr>client := Some \<lparr>ConnectedCallback = Some ForwardToAdapter, Logger = None,
         calls = [Call_Connect local_info,
                  Call_Subscribe ''echo'' (Listener None (Some answer))]\<rparr>,
      subscriptions := [\<lparr>subject = ''echo'', callback = None, reply = Some answer, id' = 1\<rparr>]\<rparr>"

definition ask :: "string \<Rightarrow> Message" where
  "ask r = \<lparr>Subject = ''echo'', ReplyTo = r, Payload = ''ping''\<rparr>"


text \<open>The adapter \<open>queued\<close> after a \<open>Connect\<close> to \<open>broker_up\<close>.\<close>

definition replayed :: "bytes list NatsAdapter" where
  "replayed = queued
     \<lparr>client := Some \<lparr>ConnectedCallback = Some ForwardToAdapter, Logger = None,
         calls = [Call_Connect local_info,
                  Call_Subscribe ''news'' (Listener (Some remember) None),
                  Call_Subscribe ''echo'' (Listener None (Some answer))]\<rparr>,
      rand := Some 1700000000000000000,
      subscriptions :=
        [\<lparr>subject = ''news'', callback = Some remember, reply = None, id' = 1\<rparr>,
         \<lparr>subject = ''echo'', callback = None, reply = Some answer, id' = 2\<rparr>]\<rparr>"

text \<open>The adapter \<open>online\<close> after \<open>Request("time", "now?", remember)\<close> with \<open>broker_up\<close>.\<close>

definition asked :: "bytes list NatsAdapter" where
  "asked = online
     \<lparr>client := Some \<lparr>ConnectedCallback = Some ForwardToAdapter, Logger = None,
         calls = [Call_Connect local_info,
                  Call_Subscribe ''_INBOX.6ba7b810-9dad-41d1-80b4-00c04fd430c8''
                    (Listener (Some remember) None),
                  Call_PublishWithReplyTo ''time''
                    ''_INBOX.6ba7b810-9dad-41d1-80b4-00c04fd430c8'' ''now?'']\<rparr>,
      subscriptions :=
        [\<lparr>subject = ''_INBOX.6ba7b810-9dad-41d1-80b4-00c04fd430c8'',
          callback = Some remember, reply = None, id' = 1\<rparr>]\<rparr>"

text \<open>The subjects of the subscriptions an operation leaves in the stored sequence.\<close>

definition stored_subjects :: "'r \<times> 'u NatsAdapter \<Rightarrow> string list" where
  "stored_subjects r = map subject (subscriptions (snd r))"

section \<open>Properties\<close>

subsection \<open>Calls on the client\<close>

lemma on_client_Some:
  "client adapter = Some c \<Longrightarrow>
   on_client m adapter = Some (fst (m c), adapter\<lparr>client := Some (snd (m c))\<rparr>)"
  by (simp add: on_client_def split: prod.split)

lemma subscribeInNats_Some:
  "client adapter = Some c \<Longrightarrow>
   subscribeInNats env adapter sub =
     Some (adapter\<lparr>client := Some (record_call (registration sub) c)\<rparr>,
           sub\<lparr>id' := fst (client_Subscribe env c (subject sub) (listener_of sub))\<rparr>)"
  by (simp add: subscribeInNats_def on_client_Some Client_Subscribe_def registration_def
      split: prod.split)

lemma store_new_connected:
  "client adapter = Some c \<Longrightarrow>
   store_new env sub adapter =
     Some (None,
       adapter\<lparr>client := Some (record_call (registration sub) c),
         subscriptions := subscriptions adapter
           @ [sub\<lparr>id' := fst (client_Subscribe env c (subject sub) (listener_of sub))\<rparr>]\<rparr>)"
  by (simp add: store_new_def subscribeInNats_Some)

lemma store_new_unconnected:
  "client adapter = None \<Longrightarrow>
   store_new env sub adapter =
     Some (Some (errors_New ''No connection to Nats. Caching subscription...''),
           adapter\<lparr>subscriptions := subscriptions adapter @ [sub]\<rparr>)"
  by (simp add: store_new_def)

lemma unsubscribe_each_Some:
  "client adapter = Some c \<Longrightarrow>
   unsubscribe_each adapter subs =
     Some (adapter\<lparr>client :=
       Some (c\<lparr>calls := calls c @ map (\<lambda>sub. Call_UnsubscribeAll (subject sub)) subs\<rparr>)\<rparr>)"
proof (induction subs arbitrary: adapter c)
  case Nil
  then show ?case by simp
next
  case (Cons sub subs)
  then show ?case
    by (simp add: on_client_Some Client_UnsubscribeAll_def record_call_def)
qed

lemma fresh_unconnected: "client fresh = None"
  by (simp add: fresh_def Configure_def NewNatsAdapter_def)

lemma connection_info_fresh: "connection_info fresh = local_info"
  by (simp add: fresh_def Configure_def NewNatsAdapter_def connection_info_def local_info_def
      show_int_def show_nat.simps)

subsection \<open>What each operation does\<close>

lemma replay_Some:
  "client adapter = Some c \<Longrightarrow>
   \<exists>subs'. replay env adapter subs =
       Some (adapter\<lparr>client := Some (c\<lparr>calls := calls c @ map registration subs\<rparr>)\<rparr>, subs')
     \<and> length subs' = length subs
     \<and> (\<forall>i<length subs. subs' ! i =
          (subs ! i)\<lparr>id' := fst (client_Subscribe env
             (c\<lparr>calls := calls c @ map registration (take i subs)\<rparr>)
             (subject (subs ! i)) (listener_of (subs ! i)))\<rparr>)"
proof (induction subs arbitrary: adapter c)
  case Nil
  then show ?case by simp
next
  case (Cons sub subs)
  let ?c1 = "record_call (registration sub) c"
  let ?a1 = "adapter\<lparr>client := Some ?c1\<rparr>"
  let ?sub' = "sub\<lparr>id' := fst (client_Subscribe env c (subject sub) (listener_of sub))\<rparr>"
  have first: "subscribeInNats env adapter sub = Some (?a1, ?sub')"
    using Cons.prems by (simp add: subscribeInNats_Some)
  have "client ?a1 = Some ?c1" by simp
  from Cons.IH [OF this] obtain subs' where
    rest: "replay env ?a1 subs =
       Some (?a1\<lparr>client := Some (?c1\<lparr>calls := calls ?c1 @ map registration subs\<rparr>)\<rparr>, subs')"
    and len: "length subs' = length subs"
    and ids: "\<forall>i<length subs. subs' ! i =
          (subs ! i)\<lparr>id' := fst (client_Subscribe env
             (?c1\<lparr>calls := calls ?c1 @ map registration (take i subs)\<rparr>)
             (subject (subs ! i)) (listener_of (subs ! i)))\<rparr>"
    by blast
  have whole: "replay env adapter (sub # subs) =
       Some (adapter\<lparr>client := Some (c\<lparr>calls := calls c @ map registration (sub # subs)\<rparr>)\<rparr>,
             ?sub' # subs')"
    using first rest by (simp add: record_call_def)
  have each: "(?sub' # subs') ! i =
          ((sub # subs) ! i)\<lparr>id' := fst (client_Subscribe env
             (c\<lparr>calls := calls c @ map registration (take i (sub # subs))\<rparr>)
             (subject ((sub # subs) ! i)) (listener_of ((sub # subs) ! i)))\<rparr>"
    if "i < length (sub # subs)" for i
  proof (cases i)
    case 0
    then show ?thesis by simp
  next
    case (Suc j)
    with that have "j < length subs" by simp
    with ids Suc show ?thesis by (simp add: record_call_def)
  qed
  from whole len each show ?case by auto
qed

lemma calls_wired_client: "calls (wired_client a) = []"
  by (simp add: wired_client_def NewClient_def Let_def split: option.split)

lemma hook_wired_client: "ConnectedCallback (wired_client a) = Some ForwardToAdapter"
  by (simp add: wired_client_def NewClient_def Let_def split: option.split)

lemma connect_success:
  assumes "client_Connect env (wired_client a) (connection_info a) = None"
  shows "\<exists>subs'. connect env a =
       Some (None, a\<lparr>client := Some ((wired_client a)\<lparr>calls :=
                 Call_Connect (connection_info a) # map registration (subscriptions a)\<rparr>),
               rand := Some (time_UnixNano env), subscriptions := subs'\<rparr>)
     \<and> length subs' = length (subscriptions a)
     \<and> (\<forall>i<length (subscriptions a). subs' ! i =
          (subscriptions a ! i)\<lparr>id' := fst (client_Subscribe env
             ((wired_client a)\<lparr>calls :=
                 Call_Connect (connection_info a) # map registration (take i (subscriptions a))\<rparr>)
             (subject (subscriptions a ! i)) (listener_of (subscriptions a ! i)))\<rparr>)"
proof -
  let ?c = "record_call (Call_Connect (connection_info a)) (wired_client a)"
  let ?a1 = "a\<lparr>client := Some ?c, rand := Some (time_UnixNano env)\<rparr>"
  have c: "client ?a1 = Some ?c" by simp
  from replay_Some [OF c, of env "subscriptions a"] obtain subs' where
    r: "replay env ?a1 (subscriptions a) =
       Some (?a1\<lparr>client := Some (?c\<lparr>calls := calls ?c @ map registration (subscriptions a)\<rparr>)\<rparr>, subs')"
    and l: "length subs' = length (subscriptions a)"
    and n: "\<forall>i<length (subscriptions a). subs' ! i =
          (subscriptions a ! i)\<lparr>id' := fst (client_Subscribe env
             (?c\<lparr>calls := calls ?c @ map registration (take i (subscriptions a))\<rparr>)
             (subject (subscriptions a ! i)) (listener_of (subscriptions a ! i)))\<rparr>"
    by blast
  have "connect env a =
       Some (None, a\<lparr>client := Some ((wired_client a)\<lparr>calls :=
                 Call_Connect (connection_info a) # map registration (subscriptions a)\<rparr>),
               rand := Some (time_UnixNano env), subscriptions := subs'\<rparr>)"
    using assms r by (simp add: connect_def Client_Connect_def record_call_def calls_wired_client)
  moreover have "\<forall>i<length (subscriptions a). subs' ! i =
          (subscriptions a ! i)\<lparr>id' := fst (client_Subscribe env
             ((wired_client a)\<lparr>calls :=
                 Call_Connect (connection_info a) # map registration (take i (subscriptions a))\<rparr>)
             (subject (subscriptions a ! i)) (listener_of (subscriptions a ! i)))\<rparr>"
    using n by (simp add: record_call_def calls_wired_client)
  ultimately show ?thesis using l by blast
qed

lemma Subscribe_effect:
  "Subscribe env subj cb adapter =
     (case client adapter of
        None \<Rightarrow>
          Some (Some (errors_New ''No connection to Nats. Caching subscription...''),
            adapter\<lparr>subscriptions := subscriptions adapter
              @ [\<lparr>subject = subj, callback = cb, reply = None, id' = 0\<rparr>]\<rparr>)
      | Some c \<Rightarrow>
          Some (None,
            adapter\<lparr>client := Some (record_call (Call_Subscribe subj (Listener cb None)) c),
              subscriptions := subscriptions adapter
                @ [\<lparr>subject = subj, callback = cb, reply = None,
                    id' = fst (client_Subscribe env c subj (Listener cb None))\<rparr>]\<rparr>))"
  by (simp add: Subscribe_def store_new_connected store_new_unconnected registration_def
      listener_of_def split: option.split)

lemma RespondToChannel_effect:
  "RespondToChannel env subj rep adapter =
     (case client adapter of
        None \<Rightarrow>
          Some (Some (errors_New ''No connection to Nats. Caching subscription...''),
            adapter\<lparr>subscriptions := subscriptions adapter
              @ [\<lparr>subject = subj, callback = None, reply = rep, id' = 0\<rparr>]\<rparr>)
      | Some c \<Rightarrow>
          Some (None,
            adapter\<lparr>client := Some (record_call (Call_Subscribe subj (Listener None rep)) c),
              subscriptions := subscriptions adapter
                @ [\<lparr>subject = subj, callback = None, reply = rep,
                    id' = fst (client_Subscribe env c subj (Listener None rep))\<rparr>]\<rparr>))"
  by (simp add: RespondToChannel_def store_new_connected store_new_unconnected registration_def
      listener_of_def split: option.split)

lemma UnsubscribeAll_effect:
  "UnsubscribeAll adapter =
     (case client adapter of
        None \<Rightarrow> Some (Some (errors_New ''No connection to Nats''), adapter)
      | Some c \<Rightarrow>
          Some (None,
            adapter\<lparr>client := Some (c\<lparr>calls := calls c
                @ map (\<lambda>sub. Call_UnsubscribeAll (subject sub)) (subscriptions adapter)\<rparr>),
              subscriptions := []\<rparr>))"
  by (simp add: UnsubscribeAll_def withConnectionCheck_def unsubscribe_each_Some
      split: option.split)

lemma queued_then_registered:
  assumes "client adapter = None"
    and "store_new env sub adapter = Some (e, adapter1)"
    and "client_Connect env2 (wired_client adapter1) (connection_info adapter1) = None"
  shows "\<exists>adapter2 c2. Connect env2 adapter1 = Some (None, adapter2)
     \<and> client adapter2 = Some c2 \<and> registration sub \<in> set (calls c2)"
proof -
  from assms(1,2) have subs: "subscriptions adapter1 = subscriptions adapter @ [sub]"
    by (auto simp: store_new_unconnected)
  from connect_success [OF assms(3)] obtain subs' where
    "connect env2 adapter1 =
       Some (None, adapter1\<lparr>client := Some ((wired_client adapter1)\<lparr>calls :=
                 Call_Connect (connection_info adapter1) # map registration (subscriptions adapter1)\<rparr>),
               rand := Some (time_UnixNano env2), subscriptions := subs'\<rparr>)"
    by blast
  with subs show ?thesis by (simp add: Connect_def)
qed

lemma Request_effect:
  assumes "client adapter = Some c" and "uuid_NewV4 env = Inr u"
  shows "Request env subj message cb adapter =
     Some (client_PublishWithReplyTo env
             (record_call (Call_Subscribe (''_INBOX.'' @ uuid_String u) (Listener cb None)) c)
             subj (''_INBOX.'' @ uuid_String u) message,
       adapter\<lparr>client := Some (c\<lparr>calls := calls c
             @ [Call_Subscribe (''_INBOX.'' @ uuid_String u) (Listener cb None),
                Call_PublishWithReplyTo subj (''_INBOX.'' @ uuid_String u) message]\<rparr>),
         subscriptions := subscriptions adapter
           @ [\<lparr>subject = ''_INBOX.'' @ uuid_String u, callback = cb, reply = None,
               id' = fst (client_Subscribe env c (''_INBOX.'' @ uuid_String u) (Listener cb None))\<rparr>]\<rparr>)"
  using assms
  by (simp add: Request_def withConnectionCheck_def createInbox_def Subscribe_effect
      on_client_Some Client_PublishWithReplyTo_def record_call_def)

lemma uuid_String_inj: "uuid_String u = uuid_String u' \<longleftrightarrow> u = u'"
  by (cases u; cases u') simp

lemma run_listener_reply:
  "run_listener env (Listener cb (Some h)) msg (a, app) =
     (if ReplyTo msg = [] then Some (a, app)
      else (case client a of
              None \<Rightarrow> None
            | Some c \<Rightarrow>
                Some (a\<lparr>client := Some (record_call
                          (Call_Publish (ReplyTo msg) (fst (h (Payload msg) app))) c)\<rparr>,
                      snd (h (Payload msg) app))))"
  by (simp add: replyToMessage_def on_client_def Client_Publish_def split: prod.split option.split)

subsection \<open>What every step keeps\<close>

lemma on_client_subscriptions:
  "on_client m a = Some (r, a') \<Longrightarrow> subscriptions a' = subscriptions a"
  by (auto simp: on_client_def split: option.splits prod.splits)

lemma replay_keeps:
  assumes "\<And>s x. P (s\<lparr>id' := x\<rparr>) = P s"
  shows "replay env a subs = Some (a', subs') \<Longrightarrow> list_all P subs' = list_all P subs"
proof (induction subs arbitrary: a a' subs')
  case Nil
  then show ?case by simp
next
  case (Cons sub subs)
  from Cons.prems obtain a1 sub1 subs1 where
    first: "subscribeInNats env a sub = Some (a1, sub1)"
    and rest: "replay env a1 subs = Some (a', subs1)"
    and whole: "subs' = sub1 # subs1"
    by (auto split: option.splits)
  from first obtain x where "sub1 = sub\<lparr>id' := x\<rparr>"
    by (auto simp: subscribeInNats_def split: option.splits)
  with assms have "P sub1 = P sub" by simp
  with Cons.IH [OF rest] whole show ?case by simp
qed

lemma connect_keeps:
  assumes "\<And>s x. P (s\<lparr>id' := x\<rparr>) = P s"
    and "connect env a = Some (e, a')"
  shows "list_all P (subscriptions a') = list_all P (subscriptions a)"
proof (cases "client_Connect env (wired_client a) (connection_info a)")
  case (Some err)
  with assms(2) show ?thesis by (simp add: connect_def Client_Connect_def)
next
  case None
  with assms(2) obtain a2 subs' where
    "replay env (a\<lparr>client := Some (record_call (Call_Connect (connection_info a)) (wired_client a)),
        rand := Some (time_UnixNano env)\<rparr>) (subscriptions a) = Some (a2, subs')"
    and "a' = a2\<lparr>subscriptions := subs'\<rparr>"
    by (auto simp: connect_def Client_Connect_def split: option.splits)
  with replay_keeps [of P, OF assms(1)] show ?thesis by simp
qed

lemma store_new_keeps:
  assumes "\<And>s x. P (s\<lparr>id' := x\<rparr>) = P s"
    and "store_new env sub a = Some (e, a')"
  shows "list_all P (subscriptions a') = (list_all P (subscriptions a) \<and> P sub)"
proof (cases "client a")
  case None
  with assms(2) show ?thesis by (auto simp: store_new_unconnected)
next
  case (Some c)
  with assms show ?thesis by (auto simp: store_new_connected)
qed

lemma Request_keeps:
  assumes "\<And>s x. P (s\<lparr>id' := x\<rparr>) = P s"
    and "\<And>subj. P \<lparr>subject = subj, callback = cb, reply = None, id' = 0\<rparr>"
    and "Request env subj message cb a = Some (e, a')"
    and "list_all P (subscriptions a)"
  shows "list_all P (subscriptions a')"
proof (cases "client a")
  case None
  with assms(3,4) show ?thesis by (simp add: Request_def withConnectionCheck_def)
next
  case (Some c)
  show ?thesis
  proof (cases "createInbox env")
    case (Inl err)
    with Some assms(3,4) show ?thesis by (simp add: Request_def withConnectionCheck_def)
  next
    case (Inr inbox)
    with Some assms(3) obtain e1 a1 where
      s: "store_new env \<lparr>subject = inbox, callback = cb, reply = None, id' = 0\<rparr> a = Some (e1, a1)"
      and p: "on_client (Client_PublishWithReplyTo env subj inbox message) a1 = Some (e, a')"
      by (auto simp: Request_def withConnectionCheck_def Subscribe_def split: option.splits)
    from store_new_keeps [of P, OF assms(1) s] assms(2,4) have "list_all P (subscriptions a1)"
      by simp
    with on_client_subscriptions [OF p] show ?thesis by simp
  qed
qed

lemma UnsubscribeAll_subscriptions:
  "UnsubscribeAll a = Some (e, a') \<Longrightarrow> subscriptions a' = [] \<or> a' = a"
  by (auto simp: UnsubscribeAll_effect split: option.splits)

lemma Publish_subscriptions:
  "Publish env subj message a = Some (e, a') \<Longrightarrow> subscriptions a' = subscriptions a"
  by (auto simp: Publish_def withConnectionCheck_def split: option.splits
      dest: on_client_subscriptions)

lemma Ping_subscriptions:
  "Ping env a = Some (e, a') \<Longrightarrow> subscriptions a' = subscriptions a"
  by (auto simp: Ping_def split: if_splits dest: on_client_subscriptions)

lemma run_listener_subscriptions:
  "run_listener env l msg (a, app) = Some (a', app') \<Longrightarrow> subscriptions a' = subscriptions a"
  by (cases l)
    (auto simp: replyToMessage_def on_client_def split: option.splits if_splits prod.splits)

lemma not_both_id: "not_both (s\<lparr>id' := x\<rparr>) = not_both s"
  by (simp add: not_both_def)

lemma one_mode_id: "one_mode (s\<lparr>id' := x\<rparr>) = one_mode s"
  by (simp add: one_mode_def)

lemma step_keeps:
  assumes id: "\<And>s x. P (s\<lparr>id' := x\<rparr>) = P s"
    and cbs: "\<And>s subj cb. x = Op_Subscribe subj cb \<or> (\<exists>m. x = Op_Request subj m cb)
        \<Longrightarrow> P \<lparr>subject = s, callback = cb, reply = None, id' = 0\<rparr>"
    and reps: "\<And>subj rep. x = Op_RespondToChannel subj rep
        \<Longrightarrow> P \<lparr>subject = subj, callback = None, reply = rep, id' = 0\<rparr>"
    and st: "step env x (a, app) = Some (a', app')"
    and inv: "list_all P (subscriptions a)"
  shows "list_all P (subscriptions a')"
proof (cases x)
  case (Op_Configure h p u pw)
  with st inv show ?thesis by (auto simp: Configure_def)
next
  case Op_Connect
  with st inv connect_keeps [of P, OF id] show ?thesis by (auto simp: Connect_def)
next
  case (Op_OnConnect cb)
  with st inv show ?thesis by (auto simp: OnConnect_def)
next
  case (Op_SetLogger l)
  with st inv show ?thesis by (auto simp: SetLogger_def)
next
  case (Op_Subscribe subj cb)
  with st inv store_new_keeps [of P, OF id] cbs [of subj cb subj] show ?thesis
    by (auto simp: Subscribe_def)
next
  case Op_UnsubscribeAll
  with st inv show ?thesis by (auto dest: UnsubscribeAll_subscriptions)
next
  case (Op_Publish subj message)
  with st inv show ?thesis by (auto dest: Publish_subscriptions)
next
  case (Op_Request subj message cb)
  with st obtain e where "Request env subj message cb a = Some (e, a')" by auto
  from Request_keeps [of P, OF id _ this inv] cbs [of subj cb] Op_Request show ?thesis
    by blast
next
  case (Op_RespondToChannel subj rep)
  with st inv store_new_keeps [of P, OF id] reps [of subj rep] show ?thesis
    by (auto simp: RespondToChannel_def)
next
  case Op_Ping
  with st inv show ?thesis by (auto dest: Ping_subscriptions)
next
  case (Ev_Message l msg)
  with st inv show ?thesis by (auto dest: run_listener_subscriptions)
next
  case Ev_Connected
  with st inv show ?thesis by auto
qed

lemma step_not_both:
  "step env x (a, app) = Some (a', app') \<Longrightarrow> list_all not_both (subscriptions a)
     \<Longrightarrow> list_all not_both (subscriptions a')"
  by (rule step_keeps [of not_both x env a app a' app'])
    (simp_all add: not_both_def)

lemma step_one_mode:
  assumes "handler_given x" and "step env x (a, app) = Some (a', app')"
    and "list_all one_mode (subscriptions a)"
  shows "list_all one_mode (subscriptions a')"
proof (rule step_keeps [of one_mode x env a app a' app'])
  fix s subj cb
  assume "x = Op_Subscribe subj cb \<or> (\<exists>m. x = Op_Request subj m cb)"
  with assms(1) have "cb \<noteq> None" by (cases cb) auto
  then show "one_mode \<lparr>subject = s, callback = cb, reply = None, id' = 0\<rparr>"
    by (simp add: one_mode_def)
next
  fix subj rep
  assume "x = Op_RespondToChannel subj rep"
  with assms(1) have "rep \<noteq> None" by (cases rep) auto
  then show "one_mode \<lparr>subject = subj, callback = None, reply = rep, id' = 0\<rparr>"
    by (simp add: one_mode_def)
qed (use assms in \<open>simp_all add: one_mode_def\<close>)

lemma run_not_both:
  "run steps (a, app) = Some (a', app') \<Longrightarrow> list_all not_both (subscriptions a)
     \<Longrightarrow> list_all not_both (subscriptions a')"
proof (induction steps arbitrary: a app)
  case Nil
  then show ?case by simp
next
  case (Cons x steps)
  obtain env y where x: "x = (env, y)" by (cases x)
  with Cons.prems(1) obtain a1 app1 where
    s: "step env y (a, app) = Some (a1, app1)" and r: "run steps (a1, app1) = Some (a', app')"
    by (auto split: option.splits)
  from Cons.IH [OF r step_not_both [OF s Cons.prems(2)]] show ?case .
qed

lemma run_one_mode:
  "run steps (a, app) = Some (a', app') \<Longrightarrow> list_all (\<lambda>x. handler_given (snd x)) steps
     \<Longrightarrow> list_all one_mode (subscriptions a)
     \<Longrightarrow> list_all one_mode (subscriptions a')"
proof (induction steps arbitrary: a app)
  case Nil
  then show ?case by simp
next
  case (Cons x steps)
  obtain env y where x: "x = (env, y)" by (cases x)
  with Cons.prems(1) obtain a1 app1 where
    s: "step env y (a, app) = Some (a1, app1)" and r: "run steps (a1, app1) = Some (a', app')"
    by (auto split: option.splits)
  from Cons.prems(2) x have g: "handler_given y" and gs: "list_all (\<lambda>x. handler_given (snd x)) steps"
    by simp_all
  from Cons.IH [OF r gs step_one_mode [OF g s Cons.prems(3)]] show ?case .
qed

subsection \<open>Operations without a connection\<close>

text \<open>
  Claim C3. While the adapter has no client handle, \<open>Publish\<close>, \<open>Request\<close> and
  \<open>UnsubscribeAll\<close> return the error "No connection to Nats" and leave the adapter as
  it was, and \<open>Ping\<close> returns false, also leaving the adapter as it was.
\<close>

theorem no_connection_operations_fail:
  assumes "client adapter = None"
  shows "Publish env subj message adapter
           = Some (Some (errors_New ''No connection to Nats''), adapter)
     \<and> Request env subj message cb adapter
           = Some (Some (errors_New ''No connection to Nats''), adapter)
     \<and> UnsubscribeAll adapter = Some (Some (errors_New ''No connection to Nats''), adapter)
     \<and> Ping env adapter = Some (False, adapter)"
  using assms
  by (simp add: Publish_def Request_def UnsubscribeAll_def Ping_def withConnectionCheck_def)

theorem no_connection_operations_fail_witness:
  "client fresh = None
     \<and> Publish broker_up ''news'' ''hello'' fresh
           = Some (Some (errors_New ''No connection to Nats''), fresh)
     \<and> Request broker_up ''news'' ''hello'' (Some remember) fresh
           = Some (Some (errors_New ''No connection to Nats''), fresh)
     \<and> UnsubscribeAll fresh = Some (Some (errors_New ''No connection to Nats''), fresh)
     \<and> Ping broker_up fresh = Some (False, fresh)"
proof -
  have h: "client fresh = None" by (rule fresh_unconnected)
  show ?thesis
    using h no_connection_operations_fail [OF h, of broker_up "''news''" "''hello''" "Some remember"]
    by simp
qed

subsection \<open>A connection that cannot be opened\<close>

text \<open>
  Claim C7. When the client's \<open>Connect\<close> returns an error, \<open>Connect\<close> of the adapter
  returns that same error and the adapter is exactly as before: its client handle, its
  subscriptions and every other field. The new client is dropped, so nothing is
  replayed.
\<close>

theorem failed_connect_changes_nothing:
  assumes "client_Connect env (wired_client adapter) (connection_info adapter) = Some err"
  shows "Connect env adapter = Some (Some err, adapter)"
  using assms by (simp add: Connect_def connect_def Client_Connect_def)

theorem failed_connect_changes_nothing_witness:
  "client_Connect broker_down (wired_client online) (connection_info online)
       = Some (ClientError ''connection refused'')
     \<and> Connect broker_down online = Some (Some (ClientError ''connection refused''), online)"
proof -
  have h: "client_Connect broker_down (wired_client online) (connection_info online)
       = Some (ClientError ''connection refused'')"
    by (simp add: broker_down_def)
  show ?thesis using h failed_connect_changes_nothing [OF h] by simp
qed

subsection \<open>The sample states are states of the program\<close>

lemmas sample_defs =
  fresh_def queued_def online_def serving_def local_info_def ask_def remember_def answer_def
  NewNatsAdapter_def Configure_def

lemmas operation_defs =
  Connect_def connect_def wired_client_def NewClient_def connection_info_def show_int_def
  show_nat.simps Client_Connect_def Client_Subscribe_def Client_Publish_def
  Client_PublishWithReplyTo_def Client_UnsubscribeAll_def Client_Ping_def record_call_def
  on_client_def subscribeInNats_def listener_of_def registration_def store_new_def
  Subscribe_def RespondToChannel_def withConnectionCheck_def UnsubscribeAll_def Publish_def
  Request_def createInbox_def Ping_def replyToMessage_def OnConnect_def SetLogger_def Let_def

lemma online_reached: "Connect broker_up fresh = Some (None, online)"
  by (simp add: sample_defs operation_defs broker_up_def)

lemma serving_reached:
  "RespondToChannel broker_up ''echo'' (Some answer) online = Some (None, serving)"
  by (simp add: sample_defs operation_defs broker_up_def)

lemma queued_reached:
  "run [(broker_down, Op_Subscribe ''news'' (Some remember)),
        (broker_down, Op_RespondToChannel ''echo'' (Some answer))] (fresh, []) = Some (queued, [])"
  by (simp add: sample_defs operation_defs)

subsection \<open>Connecting\<close>

text \<open>
  Claim C4. When the client's \<open>Connect\<close> succeeds, \<open>Connect\<close> of the adapter returns no
  error whatever the client answers to the subscriptions that follow. The adapter then
  holds the new client, on which the connected callback is wired, and a generator
  seeded with the clock. The calls made on the new client are \<open>Connect\<close> and then one
  \<open>Subscribe\<close> for each stored subscription, in the order of the sequence. The stored
  sequence keeps its length and its subscriptions; each one's id becomes the id the
  client returned for it, its error being dropped.
\<close>

theorem connect_replays_subscriptions:
  assumes "client_Connect env (wired_client adapter) (connection_info adapter) = None"
  shows "\<exists>c subs.
       Connect env adapter =
         Some (None, adapter\<lparr>client := Some c, rand := Some (time_UnixNano env),
                       subscriptions := subs\<rparr>)
     \<and> ConnectedCallback c = Some ForwardToAdapter
     \<and> calls c = Call_Connect (connection_info adapter) # map registration (subscriptions adapter)
     \<and> length subs = length (subscriptions adapter)
     \<and> (\<forall>i<length (subscriptions adapter). subs ! i =
          (subscriptions adapter ! i)\<lparr>id' := fst (client_Subscribe env
             ((wired_client adapter)\<lparr>calls := Call_Connect (connection_info adapter)
                 # map registration (take i (subscriptions adapter))\<rparr>)
             (subject (subscriptions adapter ! i)) (listener_of (subscriptions adapter ! i)))\<rparr>)"
proof -
  from connect_success [OF assms] obtain subs' where
    "connect env adapter =
       Some (None, adapter\<lparr>client := Some ((wired_client adapter)\<lparr>calls :=
                 Call_Connect (connection_info adapter) # map registration (subscriptions adapter)\<rparr>),
               rand := Some (time_UnixNano env), subscriptions := subs'\<rparr>)"
    and "length subs' = length (subscriptions adapter)"
    and "\<forall>i<length (subscriptions adapter). subs' ! i =
          (subscriptions adapter ! i)\<lparr>id' := fst (client_Subscribe env
             ((wired_client adapter)\<lparr>calls := Call_Connect (connection_info adapter)
                 # map registration (take i (subscriptions adapter))\<rparr>)
             (subject (subscriptions adapter ! i)) (listener_of (subscriptions adapter ! i)))\<rparr>"
    by blast
  then show ?thesis
    by (intro exI [of _ "(wired_client adapter)\<lparr>calls :=
                 Call_Connect (connection_info adapter) # map registration (subscriptions adapter)\<rparr>"]
        exI [of _ subs']) (simp add: Connect_def hook_wired_client)
qed

text \<open>
  The broker of the witness accepts the connection and refuses both subscriptions:
  \<open>Connect\<close> succeeds all the same, and the two calls are made in order.
\<close>

theorem connect_replays_subscriptions_witness:
  "client_Connect broker_refusing (wired_client queued) (connection_info queued) = None
     \<and> (\<exists>c subs.
         Connect broker_refusing queued =
           Some (None, queued\<lparr>client := Some c, rand := Some 1700000000000000002,
                         subscriptions := subs\<rparr>)
       \<and> ConnectedCallback c = Some ForwardToAdapter
       \<and> calls c = [Call_Connect local_info,
                    Call_Subscribe ''news'' (Listener (Some remember) None),
                    Call_Subscribe ''echo'' (Listener None (Some answer))]
       \<and> length subs = 2)"
proof -
  have h: "client_Connect broker_refusing (wired_client queued) (connection_info queued) = None"
    by (simp add: broker_refusing_def)
  have i: "connection_info queued = local_info"
    by (simp add: sample_defs connection_info_def show_int_def show_nat.simps)
  have t: "time_UnixNano broker_refusing = 1700000000000000002"
    by (simp add: broker_refusing_def)
  have s: "map registration (subscriptions queued) =
      [Call_Subscribe ''news'' (Listener (Some remember) None),
       Call_Subscribe ''echo'' (Listener None (Some answer))]"
    by (simp add: queued_def registration_def listener_of_def)
  have l: "length (subscriptions queued) = 2" by (simp add: queued_def)
  show ?thesis
    using h connect_replays_subscriptions [OF h] by (simp add: i t s l) blast
qed

subsection \<open>Subscribing\<close>

text \<open>
  Claim C2. \<open>Subscribe\<close> and \<open>RespondToChannel\<close> always append the new subscription to
  the stored sequence. Without a client they return the error "No connection to Nats.
  Caching subscription..." and make no call; a later \<open>Connect\<close> that succeeds then
  registers the subscription on its new client. With a client they call its
  \<open>Subscribe\<close> at once, store the id it returns and return no error.
\<close>

theorem subscribe_appends_always:
  "Subscribe env subj cb adapter =
     (case client adapter of
        None \<Rightarrow>
          Some (Some (errors_New ''No connection to Nats. Caching subscription...''),
            adapter\<lparr>subscriptions := subscriptions adapter
              @ [\<lparr>subject = subj, callback = cb, reply = None, id' = 0\<rparr>]\<rparr>)
      | Some c \<Rightarrow>
          Some (None,
            adapter\<lparr>client := Some (record_call (Call_Subscribe subj (Listener cb None)) c),
              subscriptions := subscriptions adapter
                @ [\<lparr>subject = subj, callback = cb, reply = None,
                    id' = fst (client_Subscribe env c subj (Listener cb None))\<rparr>]\<rparr>))
   \<and> RespondToChannel env subj rep adapter =
     (case client adapter of
        None \<Rightarrow>
          Some (Some (errors_New ''No connection to Nats. Caching subscription...''),
            adapter\<lparr>subscriptions := subscriptions adapter
              @ [\<lparr>subject = subj, callback = None, reply = rep, id' = 0\<rparr>]\<rparr>)
      | Some c \<Rightarrow>
          Some (None,
            adapter\<lparr>client := Some (record_call (Call_Subscribe subj (Listener None rep)) c),
              subscriptions := subscriptions adapter
                @ [\<lparr>subject = subj, callback = None, reply = rep,
                    id' = fst (client_Subscribe env c subj (Listener None rep))\<rparr>]\<rparr>))
   \<and> (client adapter = None \<and> Subscribe env subj cb adapter = Some (errS, adapterS)
        \<and> client_Connect env' (wired_client adapterS) (connection_info adapterS) = None
      \<longrightarrow> (\<exists>adapter2 c2. Connect env' adapterS = Some (None, adapter2)
            \<and> client adapter2 = Some c2
            \<and> Call_Subscribe subj (Listener cb None) \<in> set (calls c2)))
   \<and> (client adapter = None \<and> RespondToChannel env subj rep adapter = Some (errR, adapterR)
        \<and> client_Connect env' (wired_client adapterR) (connection_info adapterR) = None
      \<longrightarrow> (\<exists>adapter2 c2. Connect env' adapterR = Some (None, adapter2)
            \<and> client adapter2 = Some c2
            \<and> Call_Subscribe subj (Listener None rep) \<in> set (calls c2)))"
proof (intro conjI impI)
  show "Subscribe env subj cb adapter =
     (case client adapter of
        None \<Rightarrow>
          Some (Some (errors_New ''No connection to Nats. Caching subscription...''),
            adapter\<lparr>subscriptions := subscriptions adapter
              @ [\<lparr>subject = subj, callback = cb, reply = None, id' = 0\<rparr>]\<rparr>)
      | Some c \<Rightarrow>
          Some (None,
            adapter\<lparr>client := Some (record_call (Call_Subscribe subj (Listener cb None)) c),
              subscriptions := subscriptions adapter
                @ [\<lparr>subject = subj, callback = cb, reply = None,
                    id' = fst (client_Subscribe env c subj (Listener cb None))\<rparr>]\<rparr>))"
    by (rule Subscribe_effect)
next
  show "RespondToChannel env subj rep adapter =
     (case client adapter of
        None \<Rightarrow>
          Some (Some (errors_New ''No connection to Nats. Caching subscription...''),
            adapter\<lparr>subscriptions := subscriptions adapter
              @ [\<lparr>subject = subj, callback = None, reply = rep, id' = 0\<rparr>]\<rparr>)
      | Some c \<Rightarrow>
          Some (None,
            adapter\<lparr>client := Some (record_call (Call_Subscribe subj (Listener None rep)) c),
              subscriptions := subscriptions adapter
                @ [\<lparr>subject = subj, callback = None, reply = rep,
                    id' = fst (client_Subscribe env c subj (Listener None rep))\<rparr>]\<rparr>))"
    by (rule RespondToChannel_effect)
next
  assume a: "client adapter = None \<and> Subscribe env subj cb adapter = Some (errS, adapterS)
        \<and> client_Connect env' (wired_client adapterS) (connection_info adapterS) = None"
  from queued_then_registered [of adapter env
      "\<lparr>subject = subj, callback = cb, reply = None, id' = 0\<rparr>" errS adapterS env'] a
  show "\<exists>adapter2 c2. Connect env' adapterS = Some (None, adapter2)
            \<and> client adapter2 = Some c2
            \<and> Call_Subscribe subj (Listener cb None) \<in> set (calls c2)"
    by (simp add: Subscribe_def registration_def listener_of_def)
next
  assume a: "client adapter = None \<and> RespondToChannel env subj rep adapter = Some (errR, adapterR)
        \<and> client_Connect env' (wired_client adapterR) (connection_info adapterR) = None"
  from queued_then_registered [of adapter env
      "\<lparr>subject = subj, callback = None, reply = rep, id' = 0\<rparr>" errR adapterR env'] a
  show "\<exists>adapter2 c2. Connect env' adapterR = Some (None, adapter2)
            \<and> client adapter2 = Some c2
            \<and> Call_Subscribe subj (Listener None rep) \<in> set (calls c2)"
    by (simp add: RespondToChannel_def registration_def listener_of_def)
qed

theorem subscribe_appends_always_witness:
  "Subscribe broker_up ''news'' (Some remember) fresh =
     Some (Some (errors_New ''No connection to Nats. Caching subscription...''),
       fresh\<lparr>subscriptions :=
         [\<lparr>subject = ''news'', callback = Some remember, reply = None, id' = 0\<rparr>]\<rparr>)
   \<and> RespondToChannel broker_up ''echo'' (Some answer) fresh =
     Some (Some (errors_New ''No connection to Nats. Caching subscription...''),
       fresh\<lparr>subscriptions :=
         [\<lparr>subject = ''echo'', callback = None, reply = Some answer, id' = 0\<rparr>]\<rparr>)
   \<and> Subscribe broker_up ''news'' (Some remember) online =
     Some (None,
       online\<lparr>client := Some \<lparr>ConnectedCallback = Some ForwardToAdapter, Logger = None,
           calls = [Call_Connect local_info,
                    Call_Subscribe ''news'' (Listener (Some remember) None)]\<rparr>,
         subscriptions :=
           [\<lparr>subject = ''news'', callback = Some remember, reply = None, id' = 1\<rparr>]\<rparr>)
   \<and> RespondToChannel broker_up ''echo'' (Some answer) online = Some (None, serving)
   \<and> client fresh = None
   \<and> client_Connect broker_up
        (wired_client (fresh\<lparr>subscriptions :=
           [\<lparr>subject = ''news'', callback = Some remember, reply = None, id' = 0\<rparr>]\<rparr>))
        (connection_info (fresh\<lparr>subscriptions :=
           [\<lparr>subject = ''news'', callback = Some remember, reply = None, id' = 0\<rparr>]\<rparr>)) = None
   \<and> (\<exists>adapter2 c2.
        Connect broker_up (fresh\<lparr>subscriptions :=
           [\<lparr>subject = ''news'', callback = Some remember, reply = None, id' = 0\<rparr>]\<rparr>)
          = Some (None, adapter2)
        \<and> client adapter2 = Some c2
        \<and> Call_Subscribe ''news'' (Listener (Some remember) None) \<in> set (calls c2))
   \<and> client_Connect broker_up
        (wired_client (fresh\<lparr>subscriptions :=
           [\<lparr>subject = ''echo'', callback = None, reply = Some answer, id' = 0\<rparr>]\<rparr>))
        (connection_info (fresh\<lparr>subscriptions :=
           [\<lparr>subject = ''echo'', callback = None, reply = Some answer, id' = 0\<rparr>]\<rparr>)) = None
   \<and> (\<exists>adapter2 c2.
        Connect broker_up (fresh\<lparr>subscriptions :=
           [\<lparr>subject = ''echo'', callback = None, reply = Some answer, id' = 0\<rparr>]\<rparr>)
          = Some (None, adapter2)
        \<and> client adapter2 = Some c2
        \<and> Call_Subscribe ''echo'' (Listener None (Some answer)) \<in> set (calls c2))"
proof -
  let ?q1 = "fresh\<lparr>subscriptions :=
           [\<lparr>subject = ''news'', callback = Some remember, reply = None, id' = 0\<rparr>]\<rparr>"
  let ?q2 = "fresh\<lparr>subscriptions :=
           [\<lparr>subject = ''echo'', callback = None, reply = Some answer, id' = 0\<rparr>]\<rparr>"
  let ?e = "Some (errors_New ''No connection to Nats. Caching subscription...'')"
  have f: "client fresh = None" and fs: "subscriptions fresh = []"
    by (simp_all add: sample_defs)
  have o: "client online = Some \<lparr>ConnectedCallback = Some ForwardToAdapter, Logger = None,
                     calls = [Call_Connect local_info]\<rparr>"
    and os: "subscriptions online = []"
    by (simp_all add: online_def)
  have up: "client_Connect broker_up x y = None"
    "client_Subscribe broker_up c s l = (int (length (calls c)), None)" for x y c s l
    by (simp_all add: broker_up_def)
  note unconnected = subscribe_appends_always
    [where env = broker_up and subj = "''news''" and cb = "Some remember" and adapter = fresh
       and errS = ?e and adapterS = ?q1 and env' = broker_up]
  note unconnected' = subscribe_appends_always
    [where env = broker_up and subj = "''echo''" and rep = "Some answer" and adapter = fresh
       and errR = ?e and adapterR = ?q2 and env' = broker_up]
  note connected = subscribe_appends_always
    [where env = broker_up and subj = "''news''" and cb = "Some remember" and adapter = online]
  note connected' = subscribe_appends_always
    [where env = broker_up and subj = "''echo''" and rep = "Some answer" and adapter = online]
  have 1: "Subscribe broker_up ''news'' (Some remember) fresh = Some (?e, ?q1)"
    using unconnected by (simp add: f fs)
  have 2: "RespondToChannel broker_up ''echo'' (Some answer) fresh = Some (?e, ?q2)"
    using unconnected' by (simp add: f fs)
  have 3: "Subscribe broker_up ''news'' (Some remember) online =
     Some (None,
       online\<lparr>client := Some \<lparr>ConnectedCallback = Some ForwardToAdapter, Logger = None,
           calls = [Call_Connect local_info,
                    Call_Subscribe ''news'' (Listener (Some remember) None)]\<rparr>,
         subscriptions :=
           [\<lparr>subject = ''news'', callback = Some remember, reply = None, id' = 1\<rparr>]\<rparr>)"
    using connected by (simp add: o os up record_call_def)
  have 4: "RespondToChannel broker_up ''echo'' (Some answer) online = Some (None, serving)"
    using connected' by (simp add: o os up record_call_def serving_def)
  have 5: "\<exists>adapter2 c2. Connect broker_up ?q1 = Some (None, adapter2)
        \<and> client adapter2 = Some c2
        \<and> Call_Subscribe ''news'' (Listener (Some remember) None) \<in> set (calls c2)"
    using unconnected 1 by (simp add: f fs up)
  have 6: "\<exists>adapter2 c2. Connect broker_up ?q2 = Some (None, adapter2)
        \<and> client adapter2 = Some c2
        \<and> Call_Subscribe ''echo'' (Listener None (Some answer)) \<in> set (calls c2)"
    using unconnected' 2 by (simp add: f fs up)
  from 1 2 3 4 5 6 f up(1) show ?thesis by simp
qed

subsection \<open>Unsubscribing\<close>

text \<open>
  Claim C5. With a client, \<open>UnsubscribeAll\<close> calls the client's \<open>UnsubscribeAll\<close> with
  the subject of every stored subscription, in the order of the sequence, then empties
  the sequence and returns no error. Without a client it returns the error "No
  connection to Nats" and the adapter, its stored sequence included, is as before.
\<close>

theorem UnsubscribeAll_clears_subscriptions:
  "(client adapter = Some c \<longrightarrow>
      UnsubscribeAll adapter =
        Some (None,
          adapter\<lparr>client := Some (c\<lparr>calls := calls c
              @ map (\<lambda>sub. Call_UnsubscribeAll (subject sub)) (subscriptions adapter)\<rparr>),
            subscriptions := []\<rparr>))
   \<and> (client adapter = None \<longrightarrow>
      UnsubscribeAll adapter = Some (Some (errors_New ''No connection to Nats''), adapter))"
  by (simp add: UnsubscribeAll_effect)

theorem UnsubscribeAll_clears_subscriptions_witness:
  "client serving = Some \<lparr>ConnectedCallback = Some ForwardToAdapter, Logger = None,
         calls = [Call_Connect local_info,
                  Call_Subscribe ''echo'' (Listener None (Some answer))]\<rparr>
   \<and> UnsubscribeAll serving =
       Some (None,
         serving\<lparr>client := Some \<lparr>ConnectedCallback = Some ForwardToAdapter, Logger = None,
             calls = [Call_Connect local_info,
                      Call_Subscribe ''echo'' (Listener None (Some answer)),
                      Call_UnsubscribeAll ''echo'']\<rparr>,
           subscriptions := []\<rparr>)
   \<and> client queued = None
   \<and> UnsubscribeAll queued = Some (Some (errors_New ''No connection to Nats''), queued)
   \<and> length (subscriptions queued) = 2"
proof -
  have s: "client serving = Some \<lparr>ConnectedCallback = Some ForwardToAdapter, Logger = None,
         calls = [Call_Connect local_info,
                  Call_Subscribe ''echo'' (Listener None (Some answer))]\<rparr>"
    and ss: "map (\<lambda>sub. Call_UnsubscribeAll (subject sub)) (subscriptions serving)
         = [Call_UnsubscribeAll ''echo'']"
    by (simp_all add: serving_def)
  have q: "client queued = None" and qs: "length (subscriptions queued) = 2"
    by (simp_all add: sample_defs)
  from UnsubscribeAll_clears_subscriptions [of serving] UnsubscribeAll_clears_subscriptions [of queued]
  show ?thesis by (simp add: s ss q qs)
qed

subsection \<open>What the client answers to a subscription\<close>

text \<open>
  Claim C10. With a client, \<open>Subscribe\<close> and \<open>RespondToChannel\<close> return no error whatever
  the client's \<open>Subscribe\<close> returns: of its result \<open>(sid, err)\<close> the error is dropped,
  the subscription is stored, and its id is \<open>sid\<close>. \<open>Request\<close> drops the result of its
  own call of \<open>Subscribe\<close>: what it returns is the result of the publication.
\<close>

theorem broker_subscribe_error_discarded:
  assumes "client adapter = Some c"
  shows "(client_Subscribe env c subj (Listener cb None) = (sid, err) \<longrightarrow>
        Subscribe env subj cb adapter =
          Some (None,
            adapter\<lparr>client := Some (record_call (Call_Subscribe subj (Listener cb None)) c),
              subscriptions := subscriptions adapter
                @ [\<lparr>subject = subj, callback = cb, reply = None, id' = sid\<rparr>]\<rparr>))
     \<and> (client_Subscribe env c subj (Listener None rep) = (sid, err) \<longrightarrow>
        RespondToChannel env subj rep adapter =
          Some (None,
            adapter\<lparr>client := Some (record_call (Call_Subscribe subj (Listener None rep)) c),
              subscriptions := subscriptions adapter
                @ [\<lparr>subject = subj, callback = None, reply = rep, id' = sid\<rparr>]\<rparr>))
     \<and> (uuid_NewV4 env = Inr u \<longrightarrow>
        map_option fst (Request env subj message cb adapter) =
          Some (client_PublishWithReplyTo env
             (record_call (Call_Subscribe (''_INBOX.'' @ uuid_String u) (Listener cb None)) c)
             subj (''_INBOX.'' @ uuid_String u) message))"
  using assms by (simp add: Subscribe_effect RespondToChannel_effect Request_effect)

text \<open>
  In the witness the broker refuses the subscription and the publication: \<open>Subscribe\<close>
  and \<open>RespondToChannel\<close> return no error and store the id 0 that came with the
  refusal, and \<open>Request\<close> returns the error of the publication.
\<close>

theorem broker_subscribe_error_discarded_witness:
  "client online = Some \<lparr>ConnectedCallback = Some ForwardToAdapter, Logger = None,
                     calls = [Call_Connect local_info]\<rparr>
   \<and> client_Subscribe broker_refusing
        \<lparr>ConnectedCallback = Some ForwardToAdapter, Logger = None,
         calls = [Call_Connect local_info]\<rparr> ''news'' (Listener (Some remember) None)
        = (0, Some (ClientError ''subscription refused''))
   \<and> Subscribe broker_refusing ''news'' (Some remember) online =
       Some (None,
         online\<lparr>client := Some \<lparr>ConnectedCallback = Some ForwardToAdapter, Logger = None,
             calls = [Call_Connect local_info,
                      Call_Subscribe ''news'' (Listener (Some remember) None)]\<rparr>,
           subscriptions :=
             [\<lparr>subject = ''news'', callback = Some remember, reply = None, id' = 0\<rparr>]\<rparr>)
   \<and> client_Subscribe broker_refusing
        \<lparr>ConnectedCallback = Some ForwardToAdapter, Logger = None,
         calls = [Call_Connect local_info]\<rparr> ''news'' (Listener None (Some answer))
        = (0, Some (ClientError ''subscription refused''))
   \<and> RespondToChannel broker_refusing ''news'' (Some answer) online =
       Some (None,
         online\<lparr>client := Some \<lparr>ConnectedCallback = Some ForwardToAdapter, Logger = None,
             calls = [Call_Connect local_info,
                      Call_Subscribe ''news'' (Listener None (Some answer))]\<rparr>,
           subscriptions :=
             [\<lparr>subject = ''news'', callback = None, reply = Some answer, id' = 0\<rparr>]\<rparr>)
   \<and> uuid_NewV4 broker_refusing = Inr (UUID ''16fd2706-8baf-433b-82eb-8c7fada847da'')
   \<and> map_option fst (Request broker_refusing ''time'' ''now?'' (Some remember) online)
        = Some (Some (ClientError ''publish failed''))"
proof -
  let ?c = "\<lparr>ConnectedCallback = Some ForwardToAdapter, Logger = None,
             calls = [Call_Connect local_info]\<rparr> :: bytes list Client"
  have o: "client online = Some ?c" and os: "subscriptions online = []"
    by (simp_all add: online_def)
  have r: "client_Subscribe broker_refusing x s l = (0, Some (ClientError ''subscription refused''))"
    "client_PublishWithReplyTo broker_refusing x s i m = Some (ClientError ''publish failed'')"
    "uuid_NewV4 broker_refusing = Inr (UUID ''16fd2706-8baf-433b-82eb-8c7fada847da'')"
    for x s l i m
    by (simp_all add: broker_refusing_def)
  from broker_subscribe_error_discarded [OF o, where env = broker_refusing and subj = "''news''"
      and cb = "Some remember" and rep = "Some answer" and sid = 0
      and err = "Some (ClientError ''subscription refused'')"]
    broker_subscribe_error_discarded [OF o, where env = broker_refusing and subj = "''time''"
      and cb = "Some remember" and message = "''now?''"
      and u = "UUID ''16fd2706-8baf-433b-82eb-8c7fada847da''"]
  show ?thesis by (simp add: o os r record_call_def)
qed


subsection \<open>Requests\<close>

lemma Request_inbox_subject:
  assumes "client adapter = Some c" and "uuid_NewV4 env = Inr u"
  shows "\<exists>r a. Request env subj message cb adapter = Some (r, a)
     \<and> subject (last (subscriptions a)) = ''_INBOX.'' @ uuid_String u"
  using assms by (simp add: Request_effect)

text \<open>
  Claim C6, as amended. With a client, and when \<open>uuid.NewV4\<close> returns an identifier,
  \<open>Request\<close> makes the inbox subject \<open>_INBOX.\<close> followed by the identifier, subscribes the
  callback to it through \<open>Subscribe\<close>, so that the inbox subscription is appended to the
  stored sequence, and then publishes the message to the subject with the inbox as
  reply-to address: the two calls on the client are \<open>Subscribe\<close> and
  \<open>PublishWithReplyTo\<close>, in this order. Two calls produce distinct inbox subjects
  whenever the generator returned distinct identifiers to them: the inbox subjects are
  the same exactly when the identifiers are.
\<close>

theorem Request_subscribes_inbox_then_publishes:
  assumes "client adapter = Some c" and "uuid_NewV4 env = Inr u"
  shows "createInbox env = Inr (''_INBOX.'' @ uuid_String u)
     \<and> Request env subj message cb adapter =
         Some (client_PublishWithReplyTo env
                 (record_call (Call_Subscribe (''_INBOX.'' @ uuid_String u) (Listener cb None)) c)
                 subj (''_INBOX.'' @ uuid_String u) message,
           adapter\<lparr>client := Some (c\<lparr>calls := calls c
                 @ [Call_Subscribe (''_INBOX.'' @ uuid_String u) (Listener cb None),
                    Call_PublishWithReplyTo subj (''_INBOX.'' @ uuid_String u) message]\<rparr>),
             subscriptions := subscriptions adapter
               @ [\<lparr>subject = ''_INBOX.'' @ uuid_String u, callback = cb, reply = None,
                   id' = fst (client_Subscribe env c (''_INBOX.'' @ uuid_String u)
                              (Listener cb None))\<rparr>]\<rparr>)
     \<and> (uuid_NewV4 env' = Inr u' \<longrightarrow> (createInbox env' = createInbox env) = (u' = u))
     \<and> (client adapter' = Some c' \<and> uuid_NewV4 env' = Inr u' \<and> u' \<noteq> u \<longrightarrow>
          (\<exists>r a r' a'.
              Request env subj message cb adapter = Some (r, a)
            \<and> Request env' subj' message' cb' adapter' = Some (r', a')
            \<and> subject (last (subscriptions a')) \<noteq> subject (last (subscriptions a))))"
proof -
  have two: "\<exists>r a r' a'.
              Request env subj message cb adapter = Some (r, a)
            \<and> Request env' subj' message' cb' adapter' = Some (r', a')
            \<and> subject (last (subscriptions a')) \<noteq> subject (last (subscriptions a))"
    if other: "client adapter' = Some c'" "uuid_NewV4 env' = Inr u'" and diff: "u' \<noteq> u"
  proof -
    from Request_inbox_subject [OF assms] obtain r a where
      first: "Request env subj message cb adapter = Some (r, a)"
      "subject (last (subscriptions a)) = ''_INBOX.'' @ uuid_String u"
      by blast
    from Request_inbox_subject [OF other] obtain r' a' where
      second: "Request env' subj' message' cb' adapter' = Some (r', a')"
      "subject (last (subscriptions a')) = ''_INBOX.'' @ uuid_String u'"
      by blast
    from diff have "''_INBOX.'' @ uuid_String u' \<noteq> ''_INBOX.'' @ uuid_String u"
      by (simp add: uuid_String_inj)
    with first second show ?thesis by metis
  qed
  have rest: "createInbox env = Inr (''_INBOX.'' @ uuid_String u)
     \<and> Request env subj message cb adapter =
         Some (client_PublishWithReplyTo env
                 (record_call (Call_Subscribe (''_INBOX.'' @ uuid_String u) (Listener cb None)) c)
                 subj (''_INBOX.'' @ uuid_String u) message,
           adapter\<lparr>client := Some (c\<lparr>calls := calls c
                 @ [Call_Subscribe (''_INBOX.'' @ uuid_String u) (Listener cb None),
                    Call_PublishWithReplyTo subj (''_INBOX.'' @ uuid_String u) message]\<rparr>),
             subscriptions := subscriptions adapter
               @ [\<lparr>subject = ''_INBOX.'' @ uuid_String u, callback = cb, reply = None,
                   id' = fst (client_Subscribe env c (''_INBOX.'' @ uuid_String u)
                              (Listener cb None))\<rparr>]\<rparr>)
     \<and> (uuid_NewV4 env' = Inr u' \<longrightarrow> (createInbox env' = createInbox env) = (u' = u))"
    using assms by (simp add: Request_effect createInbox_def uuid_String_inj)
  from rest two show ?thesis by blast
qed

text \<open>
  In the witness the second call is made after the first, with a generator that returns
  another identifier.
\<close>

theorem Request_subscribes_inbox_then_publishes_witness:
  "client online = Some \<lparr>ConnectedCallback = Some ForwardToAdapter, Logger = None,
                     calls = [Call_Connect local_info]\<rparr>
   \<and> uuid_NewV4 broker_up = Inr (UUID ''6ba7b810-9dad-41d1-80b4-00c04fd430c8'')
   \<and> createInbox broker_up = Inr ''_INBOX.6ba7b810-9dad-41d1-80b4-00c04fd430c8''
   \<and> Request broker_up ''time'' ''now?'' (Some remember) online = Some (None, asked)
   \<and> client asked = Some \<lparr>ConnectedCallback = Some ForwardToAdapter, Logger = None,
         calls = [Call_Connect local_info,
                  Call_Subscribe ''_INBOX.6ba7b810-9dad-41d1-80b4-00c04fd430c8''
                    (Listener (Some remember) None),
                  Call_PublishWithReplyTo ''time''
                    ''_INBOX.6ba7b810-9dad-41d1-80b4-00c04fd430c8'' ''now?'']\<rparr>
   \<and> uuid_NewV4 broker_refusing = Inr (UUID ''16fd2706-8baf-433b-82eb-8c7fada847da'')
   \<and> UUID ''16fd2706-8baf-433b-82eb-8c7fada847da'' \<noteq> UUID ''6ba7b810-9dad-41d1-80b4-00c04fd430c8''
   \<and> createInbox broker_refusing \<noteq> createInbox broker_up
   \<and> (\<exists>r a r' a'.
          Request broker_up ''time'' ''now?'' (Some remember) online = Some (r, a)
        \<and> Request broker_refusing ''date'' ''today?'' (Some remember) asked = Some (r', a')
        \<and> subject (last (subscriptions a')) \<noteq> subject (last (subscriptions a)))
   \<and> map_option stored_subjects
        (Request broker_refusing ''date'' ''today?'' (Some remember) asked)
       = Some [''_INBOX.6ba7b810-9dad-41d1-80b4-00c04fd430c8'',
               ''_INBOX.16fd2706-8baf-433b-82eb-8c7fada847da'']"
proof -
  let ?c = "\<lparr>ConnectedCallback = Some ForwardToAdapter, Logger = None,
             calls = [Call_Connect local_info]\<rparr> :: bytes list Client"
  let ?d = "\<lparr>ConnectedCallback = Some ForwardToAdapter, Logger = None,
         calls = [Call_Connect local_info,
                  Call_Subscribe ''_INBOX.6ba7b810-9dad-41d1-80b4-00c04fd430c8''
                    (Listener (Some remember) None),
                  Call_PublishWithReplyTo ''time''
                    ''_INBOX.6ba7b810-9dad-41d1-80b4-00c04fd430c8'' ''now?'']\<rparr>
          :: bytes list Client"
  have o: "client online = Some ?c" and os: "subscriptions online = []"
    by (simp_all add: online_def)
  have k: "client asked = Some ?d"
    and ks: "subscriptions asked =
        [\<lparr>subject = ''_INBOX.6ba7b810-9dad-41d1-80b4-00c04fd430c8'',
          callback = Some remember, reply = None, id' = 1\<rparr>]"
    by (simp_all add: asked_def)
  have up: "uuid_NewV4 broker_up = Inr (UUID ''6ba7b810-9dad-41d1-80b4-00c04fd430c8'')"
    "client_Subscribe broker_up x s l = (int (length (calls x)), None)"
    "client_PublishWithReplyTo broker_up x s i m = None" for x s l i m
    by (simp_all add: broker_up_def)
  have r: "uuid_NewV4 broker_refusing = Inr (UUID ''16fd2706-8baf-433b-82eb-8c7fada847da'')"
    by (simp add: broker_refusing_def)
  have n: "UUID ''16fd2706-8baf-433b-82eb-8c7fada847da''
      \<noteq> UUID ''6ba7b810-9dad-41d1-80b4-00c04fd430c8''"
    by simp
  note t = Request_subscribes_inbox_then_publishes [OF o up(1), where subj = "''time''"
      and message = "''now?''" and cb = "Some remember" and env' = broker_refusing
      and u' = "UUID ''16fd2706-8baf-433b-82eb-8c7fada847da''" and adapter' = asked
      and c' = ?d and subj' = "''date''" and message' = "''today?''" and cb' = "Some remember"]
  note t' = Request_subscribes_inbox_then_publishes [OF k r, where subj = "''date''"
      and message = "''today?''" and cb = "Some remember"]
  from t have a: "createInbox broker_up = Inr ''_INBOX.6ba7b810-9dad-41d1-80b4-00c04fd430c8''"
    by simp
  from t have b: "Request broker_up ''time'' ''now?'' (Some remember) online = Some (None, asked)"
    by (simp add: os up record_call_def asked_def)
  from t r have d: "createInbox broker_refusing \<noteq> createInbox broker_up"
    by blast
  from t k r n have e: "\<exists>r a r' a'.
          Request broker_up ''time'' ''now?'' (Some remember) online = Some (r, a)
        \<and> Request broker_refusing ''date'' ''today?'' (Some remember) asked = Some (r', a')
        \<and> subject (last (subscriptions a')) \<noteq> subject (last (subscriptions a))"
    by blast
  from t' [THEN conjunct2, THEN conjunct1] have f: "map_option stored_subjects
        (Request broker_refusing ''date'' ''today?'' (Some remember) asked)
       = Some [''_INBOX.6ba7b810-9dad-41d1-80b4-00c04fd430c8'',
               ''_INBOX.16fd2706-8baf-433b-82eb-8c7fada847da'']"
    by (simp add: stored_subjects_def ks)
  from o up(1) a b k r n d e f show ?thesis by blast
qed

text \<open>
  The claim as it was made says that distinct calls produce distinct inbox subjects.
  The adapter adds nothing of its own to the identifier: when the generator returns the
  same identifier to two calls, as \<open>broker_up\<close> does, both store the same inbox subject.
\<close>

theorem same_identifier_same_inbox_counterexample:
  "Request broker_up ''time'' ''now?'' (Some remember) online = Some (None, asked)
   \<and> map_option fst (Request broker_up ''date'' ''today?'' (Some remember) asked) = Some None
   \<and> map_option stored_subjects (Request broker_up ''date'' ''today?'' (Some remember) asked)
       = Some [''_INBOX.6ba7b810-9dad-41d1-80b4-00c04fd430c8'',
               ''_INBOX.6ba7b810-9dad-41d1-80b4-00c04fd430c8'']"
  by (simp add: asked_def online_def operation_defs broker_up_def stored_subjects_def)

subsection \<open>The connected callback\<close>

text \<open>
  Claim C9. \<open>OnConnect\<close> stores its argument in the one slot \<open>connectedCallback\<close>, so a
  second \<open>OnConnect\<close> replaces the callback of the first. A \<open>Connect\<close> that succeeds
  leaves a client on which the forwarding closure is wired. That closure, whenever the
  client runs it, runs the callback that is in the slot at that moment, and does
  nothing when the slot is empty.
\<close>

theorem OnConnect_single_slot:
  "connectedCallback (OnConnect cb adapter) = cb
   \<and> OnConnect cb' (OnConnect cb adapter) = OnConnect cb' adapter
   \<and> (Connect env adapter = Some (None, adapter')
        \<longrightarrow> (\<exists>c. client adapter' = Some c \<and> ConnectedCallback c = Some ForwardToAdapter))
   \<and> run_hook ForwardToAdapter adapter app
        = (case connectedCallback adapter of None \<Rightarrow> app | Some f \<Rightarrow> f app)
   \<and> run_hook ForwardToAdapter (OnConnect (Some f) adapter) app = f app
   \<and> run_hook ForwardToAdapter (OnConnect (Some f') (OnConnect (Some f) adapter)) app = f' app
   \<and> run_hook ForwardToAdapter (OnConnect None adapter) app = app"
proof -
  have "\<exists>c. client adapter' = Some c \<and> ConnectedCallback c = Some ForwardToAdapter"
    if ok: "Connect env adapter = Some (None, adapter')"
  proof (cases "client_Connect env (wired_client adapter) (connection_info adapter)")
    case (Some err)
    with ok show ?thesis by (simp add: Connect_def connect_def Client_Connect_def)
  next
    case None
    from connect_success [OF None] ok show ?thesis
      by (auto simp: Connect_def hook_wired_client)
  qed
  then show ?thesis by (simp add: OnConnect_def)
qed

theorem OnConnect_single_slot_witness:
  "Connect broker_up fresh = Some (None, online)
   \<and> (\<exists>c. client online = Some c \<and> ConnectedCallback c = Some ForwardToAdapter)
   \<and> run_hook ForwardToAdapter online [] = ([] :: bytes list)
   \<and> run_hook ForwardToAdapter (OnConnect (Some (remember ''up'')) online) [] = [''up'']
   \<and> run_hook ForwardToAdapter
        (OnConnect (Some (remember ''again'')) (OnConnect (Some (remember ''up'')) online)) []
        = [''again'']
   \<and> run_hook ForwardToAdapter (OnConnect None (OnConnect (Some (remember ''up'')) online)) []
        = ([] :: bytes list)"
proof -
  have o: "Connect broker_up fresh = Some (None, online)" by (rule online_reached)
  have n: "connectedCallback online = None" by (simp add: online_def)
  from OnConnect_single_slot [where adapter = fresh and env = broker_up and adapter' = online]
    OnConnect_single_slot [where adapter = online and app = "[]" and f = "remember ''up''"
      and f' = "remember ''again''"]
    OnConnect_single_slot [where adapter = "OnConnect (Some (remember ''up'')) online"
      and app = "[] :: bytes list"]
  show ?thesis by (simp add: o n remember_def)
qed

subsection \<open>Messages for a reply subscription\<close>

text \<open>
  Claim C1, as amended. The subscription that \<open>RespondToChannel\<close> stores for a handler
  \<open>h\<close> has the listener that knows \<open>h\<close> as its reply handler. When the client hands this
  listener a message with a reply-to address \<open>R\<close> and payload \<open>P\<close>, the listener runs \<open>h\<close>
  on \<open>P\<close> and publishes what \<open>h\<close> returns to \<open>R\<close> on the client the adapter holds. When
  the message has no reply-to address, the listener returns at once: \<open>h\<close> is not run
  and nothing is published.
\<close>

theorem reply_listener_answers_only_with_address:
  assumes "RespondToChannel env0 subj (Some h) adapter0 = Some (e, adapter1)"
  shows "subscriptions adapter1 \<noteq> []
     \<and> subject (last (subscriptions adapter1)) = subj
     \<and> listener_of (last (subscriptions adapter1)) = Listener None (Some h)
     \<and> (ReplyTo msg \<noteq> [] \<and> client adapter = Some c \<longrightarrow>
          run_listener env (Listener None (Some h)) msg (adapter, app) =
            Some (adapter\<lparr>client := Some (record_call
                     (Call_Publish (ReplyTo msg) (fst (h (Payload msg) app))) c)\<rparr>,
                  snd (h (Payload msg) app)))
     \<and> (ReplyTo msg = [] \<longrightarrow>
          run_listener env (Listener None (Some h)) msg (adapter, app) = Some (adapter, app))"
proof -
  from assms have "subscriptions adapter1 \<noteq> []
     \<and> subject (last (subscriptions adapter1)) = subj
     \<and> listener_of (last (subscriptions adapter1)) = Listener None (Some h)"
    by (auto simp: RespondToChannel_effect listener_of_def split: option.splits)
  then show ?thesis by (simp add: run_listener_reply del: run_listener.simps)
qed

theorem reply_listener_answers_only_with_address_witness:
  "RespondToChannel broker_up ''echo'' (Some answer) online = Some (None, serving)
   \<and> listener_of (last (subscriptions serving)) = Listener None (Some answer)
   \<and> ReplyTo (ask ''_INBOX.7'') \<noteq> []
   \<and> client serving = Some \<lparr>ConnectedCallback = Some ForwardToAdapter, Logger = None,
         calls = [Call_Connect local_info,
                  Call_Subscribe ''echo'' (Listener None (Some answer))]\<rparr>
   \<and> run_listener broker_up (Listener None (Some answer)) (ask ''_INBOX.7'') (serving, []) =
       Some (serving\<lparr>client := Some \<lparr>ConnectedCallback = Some ForwardToAdapter, Logger = None,
                 calls = [Call_Connect local_info,
                          Call_Subscribe ''echo'' (Listener None (Some answer)),
                          Call_Publish ''_INBOX.7'' ''re:ping'']\<rparr>\<rparr>,
             [''ping''])
   \<and> ReplyTo (ask []) = []
   \<and> run_listener broker_up (Listener None (Some answer)) (ask []) (serving, [])
       = Some (serving, [])"
proof -
  have r: "RespondToChannel broker_up ''echo'' (Some answer) online = Some (None, serving)"
    by (rule serving_reached)
  have c: "client serving = Some \<lparr>ConnectedCallback = Some ForwardToAdapter, Logger = None,
         calls = [Call_Connect local_info,
                  Call_Subscribe ''echo'' (Listener None (Some answer))]\<rparr>"
    by (simp add: serving_def)
  from reply_listener_answers_only_with_address [OF r, where msg = "ask ''_INBOX.7''"
      and adapter = serving and app = "[]" and env = broker_up]
    reply_listener_answers_only_with_address [OF r, where msg = "ask []"
      and adapter = serving and app = "[]" and env = broker_up]
  show ?thesis by (simp add: r c ask_def answer_def record_call_def)
qed

text \<open>
  The claim as it was made says that the handler still runs when the message has no
  reply-to address. In the sample, the handler \<open>answer\<close> adds the payload it is given to
  the payloads the application has seen; after the message without reply-to address
  the application has seen nothing.
\<close>

theorem reply_handler_skipped_counterexample:
  "RespondToChannel broker_up ''echo'' (Some answer) online = Some (None, serving)
   \<and> ReplyTo (ask []) = [] \<and> Payload (ask []) = ''ping''
   \<and> run_listener broker_up (listener_of (last (subscriptions serving))) (ask []) (serving, [])
       = Some (serving, [])
   \<and> snd (answer ''ping'' []) = [''ping'']"
  by (simp add: serving_reached)
    (simp add: serving_def ask_def answer_def listener_of_def replyToMessage_def)

subsection \<open>The modes of the stored subscriptions\<close>

text \<open>
  Claim C8, as amended. In every state the adapter reaches from \<open>NewNatsAdapter\<close>, no
  stored subscription has both a callback handler and a reply handler. The subscription
  \<open>Subscribe\<close> stores has no reply handler and has the callback it was given;
  the one \<open>RespondToChannel\<close> stores has no callback handler and has the reply handler it
  was given. So when no operation of the run was given \<open>nil\<close> for its handler, every
  stored subscription has exactly one of the two handlers.
\<close>

theorem stored_subscriptions_never_both:
  assumes "run steps (NewNatsAdapter, app0) = Some (adapter, app)"
  shows "list_all not_both (subscriptions adapter)
     \<and> (list_all (\<lambda>x. handler_given (snd x)) steps
          \<longrightarrow> list_all one_mode (subscriptions adapter))
     \<and> (Subscribe env subj cb adapter = Some (e, adapter')
          \<longrightarrow> subscriptions adapter' \<noteq> []
            \<and> callback (last (subscriptions adapter')) = cb
            \<and> reply (last (subscriptions adapter')) = None)
     \<and> (RespondToChannel env subj rep adapter = Some (e, adapter')
          \<longrightarrow> subscriptions adapter' \<noteq> []
            \<and> callback (last (subscriptions adapter')) = None
            \<and> reply (last (subscriptions adapter')) = rep)"
proof -
  have start: "list_all not_both (subscriptions (NewNatsAdapter :: 'a NatsAdapter))"
    "list_all one_mode (subscriptions (NewNatsAdapter :: 'a NatsAdapter))"
    by (simp_all add: NewNatsAdapter_def)
  have 1: "list_all not_both (subscriptions adapter)"
    using run_not_both [OF assms start(1)] .
  have 2: "list_all one_mode (subscriptions adapter)"
    if "list_all (\<lambda>x. handler_given (snd x)) steps"
    using run_one_mode [OF assms that start(2)] .
  have 3: "subscriptions adapter' \<noteq> []
            \<and> callback (last (subscriptions adapter')) = cb
            \<and> reply (last (subscriptions adapter')) = None"
    if "Subscribe env subj cb adapter = Some (e, adapter')"
    using that by (auto simp: Subscribe_effect split: option.splits)
  have 4: "subscriptions adapter' \<noteq> []
            \<and> callback (last (subscriptions adapter')) = None
            \<and> reply (last (subscriptions adapter')) = rep"
    if "RespondToChannel env subj rep adapter = Some (e, adapter')"
    using that by (auto simp: RespondToChannel_effect split: option.splits)
  from 1 2 3 4 show ?thesis by blast
qed

theorem stored_subscriptions_never_both_witness:
  "run [(broker_down, Op_Configure ''localhost'' 4222 ''nats'' ''secret''),
        (broker_down, Op_Subscribe ''news'' (Some remember)),
        (broker_down, Op_RespondToChannel ''echo'' (Some answer)),
        (broker_up, Op_Connect)] (NewNatsAdapter, []) = Some (replayed, [])
   \<and> list_all (\<lambda>x. handler_given (snd x))
        [(broker_down, Op_Configure ''localhost'' 4222 ''nats'' ''secret''),
         (broker_down, Op_Subscribe ''news'' (Some remember)),
         (broker_down, Op_RespondToChannel ''echo'' (Some answer)),
         (broker_up, Op_Connect)]
   \<and> list_all not_both (subscriptions replayed)
   \<and> list_all one_mode (subscriptions replayed)
   \<and> Subscribe broker_up ''more'' (Some remember) replayed
       = Some (None, replayed
           \<lparr>client := Some \<lparr>ConnectedCallback = Some ForwardToAdapter, Logger = None,
               calls = [Call_Connect local_info,
                        Call_Subscribe ''news'' (Listener (Some remember) None),
                        Call_Subscribe ''echo'' (Listener None (Some answer)),
                        Call_Subscribe ''more'' (Listener (Some remember) None)]\<rparr>,
             subscriptions := subscriptions replayed
               @ [\<lparr>subject = ''more'', callback = Some remember, reply = None, id' = 3\<rparr>]\<rparr>)
   \<and> RespondToChannel broker_up ''more'' (Some answer) replayed
       = Some (None, replayed
           \<lparr>client := Some \<lparr>ConnectedCallback = Some ForwardToAdapter, Logger = None,
               calls = [Call_Connect local_info,
                        Call_Subscribe ''news'' (Listener (Some remember) None),
                        Call_Subscribe ''echo'' (Listener None (Some answer)),
                        Call_Subscribe ''more'' (Listener None (Some answer))]\<rparr>,
             subscriptions := subscriptions replayed
               @ [\<lparr>subject = ''more'', callback = None, reply = Some answer, id' = 3\<rparr>]\<rparr>)"
proof -
  let ?steps = "[(broker_down, Op_Configure ''localhost'' 4222 ''nats'' ''secret''),
        (broker_down, Op_Subscribe ''news'' (Some remember)),
        (broker_down, Op_RespondToChannel ''echo'' (Some answer)),
        (broker_up, Op_Connect)]"
  have r: "run ?steps (NewNatsAdapter, []) = Some (replayed, [])"
    by (simp add: replayed_def sample_defs operation_defs broker_up_def)
  have g: "list_all (\<lambda>x. handler_given (snd x)) ?steps" by simp
  have s: "Subscribe broker_up ''more'' (Some remember) replayed
       = Some (None, replayed
           \<lparr>client := Some \<lparr>ConnectedCallback = Some ForwardToAdapter, Logger = None,
               calls = [Call_Connect local_info,
                        Call_Subscribe ''news'' (Listener (Some remember) None),
                        Call_Subscribe ''echo'' (Listener None (Some answer)),
                        Call_Subscribe ''more'' (Listener (Some remember) None)]\<rparr>,
             subscriptions := subscriptions replayed
               @ [\<lparr>subject = ''more'', callback = Some remember, reply = None, id' = 3\<rparr>]\<rparr>)"
    by (simp add: replayed_def operation_defs broker_up_def)
  have t: "RespondToChannel broker_up ''more'' (Some answer) replayed
       = Some (None, replayed
           \<lparr>client := Some \<lparr>ConnectedCallback = Some ForwardToAdapter, Logger = None,
               calls = [Call_Connect local_info,
                        Call_Subscribe ''news'' (Listener (Some remember) None),
                        Call_Subscribe ''echo'' (Listener None (Some answer)),
                        Call_Subscribe ''more'' (Listener None (Some answer))]\<rparr>,
             subscriptions := subscriptions replayed
               @ [\<lparr>subject = ''more'', callback = None, reply = Some answer, id' = 3\<rparr>]\<rparr>)"
    by (simp add: replayed_def operation_defs broker_up_def)
  from stored_subscriptions_never_both [OF r, where env = broker_up and subj = "''more''"]
  show ?thesis using r g s t by simp
qed

text \<open>
  The claim as it was made says that no operation stores a subscription with neither
  handler. \<open>Subscribe\<close> stores the callback it is given, and it may be given \<open>nil\<close>.
\<close>

theorem nil_handler_counterexample:
  "run [(broker_down, Op_Subscribe ''news'' None)] (NewNatsAdapter, [])
     = Some (NewNatsAdapter\<lparr>subscriptions :=
               [\<lparr>subject = ''news'', callback = None, reply = None, id' = 0\<rparr>]\<rparr>, [])
   \<and> \<not> list_all one_mode
         [\<lparr>subject = ''news'', callback = None :: (bytes \<Rightarrow> bytes list \<Rightarrow> bytes list) option,
           reply = None :: (bytes \<Rightarrow> bytes list \<Rightarrow> bytes \<times> bytes list) option, id' = 0\<rparr>]"
  by (simp add: NewNatsAdapter_def Subscribe_def store_new_def one_mode_def)


end
